theory Spec2Isabelle
  imports Complex_Main
begin

section \<open>Errors and tensor scalars\<close>

text \<open>
  Exceptions of the Python source are values: a function that can raise returns
  \<open>error + 'a\<close>, with \<open>Inl\<close> the exception.
\<close>

datatype error = IndexError | ValueError | RuntimeError | ZeroDivisionError

text \<open>
  The entries of the tensors are floating-point numbers. Their arithmetic is not fixed
  here: every operation the source applies to a tensor entry is a field of the record
  \<open>fops\<close>, and the functions below take that record as their first argument. A theorem
  stated for every \<open>ops\<close> therefore holds whatever the operations round to. The fields:
  \<^item> \<open>f_isnan\<close> is \<^verbatim>\<open>torch.isnan\<close>, \<open>f_eq\<close> is \<^verbatim>\<open>==\<close> on two entries;
  \<^item> \<open>f_add\<close>, \<open>f_sub\<close>, \<open>f_mul\<close>, \<open>f_div\<close> are \<^verbatim>\<open>+ - * /\<close>;
  \<^item> \<open>f_const\<close> turns a Python number (\<^verbatim>\<open>60\<close>, \<^verbatim>\<open>1e-7\<close>, \<^verbatim>\<open>self.n_timesteps\<close>) into an entry;
  \<^item> \<open>f_int\<close> is Python's \<^verbatim>\<open>int(...)\<close> of a one-element tensor, which raises on NaN and
    on the infinities;
  \<^item> \<open>f_trunc\<close> is \<^verbatim>\<open>.to(int)\<close>, which never raises;
  \<^item> \<open>f_nan_to_num\<close> is \<^verbatim>\<open>.nan_to_num(0.)\<close>;
  \<^item> \<open>f_mean\<close>, \<open>f_std\<close>, \<open>f_max\<close>, \<open>f_min\<close> are the reductions of a one-dimensional
    tensor (\<open>f_max\<close> and \<open>f_min\<close> are only called on a non-empty one).
\<close>

record 'f fops =
  f_isnan :: "'f \<Rightarrow> bool"
  f_eq :: "'f \<Rightarrow> 'f \<Rightarrow> bool"
  f_add :: "'f \<Rightarrow> 'f \<Rightarrow> 'f"
  f_sub :: "'f \<Rightarrow> 'f \<Rightarrow> 'f"
  f_mul :: "'f \<Rightarrow> 'f \<Rightarrow> 'f"
  f_div :: "'f \<Rightarrow> 'f \<Rightarrow> 'f"
  f_const :: "real \<Rightarrow> 'f"
  f_int :: "'f \<Rightarrow> error + int"
  f_trunc :: "'f \<Rightarrow> int"
  f_nan_to_num :: "'f \<Rightarrow> 'f"
  f_mean :: "'f list \<Rightarrow> 'f"
  f_std :: "'f list \<Rightarrow> 'f"
  f_max :: "'f list \<Rightarrow> 'f"
  f_min :: "'f list \<Rightarrow> 'f"

text \<open>
  One instance of the operations, used to run the definitions on concrete inputs: exact
  real arithmetic, with \<open>None\<close> for NaN. It has no infinities (a division by zero gives
  NaN) and does not round; \<open>f_std\<close> is the unbiased estimator that \<^verbatim>\<open>Tensor.std\<close>
  computes by default.
\<close>

definition lift2 :: "(real \<Rightarrow> real \<Rightarrow> real) \<Rightarrow> real option \<Rightarrow> real option \<Rightarrow> real option" where
  "lift2 g a b = (case a of None \<Rightarrow> None | Some u \<Rightarrow> (case b of None \<Rightarrow> None | Some v \<Rightarrow> Some (g u v)))"

fun all_reals :: "real option list \<Rightarrow> real list option" where
  "all_reals [] = Some []"
| "all_reals (None # vs) = None"
| "all_reals (Some v # vs) = (case all_reals vs of None \<Rightarrow> None | Some us \<Rightarrow> Some (v # us))"

definition mean_r :: "real list \<Rightarrow> real" where
  "mean_r us = sum_list us / real (length us)"

definition exact_ops :: "real option fops" where
  "exact_ops = \<lparr>
     f_isnan = (\<lambda>a. a = None),
     f_eq = (\<lambda>a b. case a of None \<Rightarrow> False | Some u \<Rightarrow> (case b of None \<Rightarrow> False | Some v \<Rightarrow> u = v)),
     f_add = lift2 (+),
     f_sub = lift2 (-),
     f_mul = lift2 (*),
     f_div = (\<lambda>a b. if b = Some 0 then None else lift2 (/) a b),
     f_const = Some,
     f_int = (\<lambda>a. case a of None \<Rightarrow> Inl ValueError
                | Some u \<Rightarrow> Inr (if 0 \<le> u then \<lfloor>u\<rfloor> else \<lceil>u\<rceil>)),
     f_trunc = (\<lambda>a. case a of None \<Rightarrow> 0 | Some u \<Rightarrow> (if 0 \<le> u then \<lfloor>u\<rfloor> else \<lceil>u\<rceil>)),
     f_nan_to_num = (\<lambda>a. case a of None \<Rightarrow> Some 0 | Some u \<Rightarrow> Some u),
     f_mean = (\<lambda>vs. case all_reals vs of None \<Rightarrow> None
                | Some us \<Rightarrow> if us = [] then None else Some (mean_r us)),
     f_std = (\<lambda>vs. case all_reals vs of None \<Rightarrow> None
                | Some us \<Rightarrow> if length us < 2 then None
                   else Some (sqrt (sum_list (map (\<lambda>u. (u - mean_r us)\<^sup>2) us) / real (length us - 1)))),
     f_max = (\<lambda>vs. case all_reals vs of None \<Rightarrow> None
                | Some us \<Rightarrow> if us = [] then None else Some (fold max us (hd us))),
     f_min = (\<lambda>vs. case all_reals vs of None \<Rightarrow> None
                | Some us \<Rightarrow> if us = [] then None else Some (fold min us (hd us)))
   \<rparr>"

section \<open>The data set: \<^verbatim>\<open>PhysioNetDataset\<close>\<close>

text \<open>
  \<^verbatim>\<open>self.X\<close> is a tensor of shape (records, rows, channels), here a list of records, each a
  list of rows, each a list of channel entries; as in a tensor all rows have the same
  number of channels. Channel 0 is the time stamp in minutes, channels 1 to 36 are the
  time series, channels 37 to 44 the static features. \<^verbatim>\<open>self.y\<close> is the label tensor.
\<close>

datatype split_name = Train | Val | Test

record ('f, 'l) dataset =
  split_name :: split_name
  n_timesteps :: nat
  data_X :: "'f list list list"
  data_y :: "'l list list"
  means :: "'f list"
  stds :: "'f list"
  maxes :: "'f list"
  mins :: "'f list"

text \<open>
  The number of channels of a tensor that holds at least one row, read off the first row
  of the first record.
\<close>

definition n_channels :: "'f list list list \<Rightarrow> nat" where
  "n_channels Xs = (case Xs of [] \<Rightarrow> 0 | r # _ \<Rightarrow> (case r of [] \<Rightarrow> 0 | row # _ \<Rightarrow> length row))"

text \<open>\<^verbatim>\<open>vals = self.X[:, :, i].flatten(); vals = vals[~torch.isnan(vals)]\<close>\<close>

definition channel_vals :: "'f fops \<Rightarrow> 'f list list list \<Rightarrow> nat \<Rightarrow> 'f list" where
  "channel_vals ops Xs i = filter (\<lambda>v. \<not> f_isnan ops v) (concat (map (map (\<lambda>row. row ! i)) Xs))"

text \<open>
  What the loader \<^verbatim>\<open>PhysioNet2012(self.split_name, ...)\<close> returns, as far as the data set reads
  it: the tensor \<^verbatim>\<open>X\<close>, its number of channels \<^verbatim>\<open>X.shape[2]\<close>, which a tensor has also when
  it holds no record or no row, and the tensor \<^verbatim>\<open>y\<close>.
\<close>

record ('f, 'l) split_data =
  split_X :: "'f list list list"
  split_channels :: nat
  split_y :: "'l list list"

text \<open>
  \<^verbatim>\<open>PhysioNetDataset.setup\<close>, here \<open>dataset_setup\<close>. The loader belongs to the torchtime
  library and returns the data of the split it is asked for; it is the parameter \<open>load\<close>,
  which gives for a split name the data of that split. The statistics are taken over the
  \<^verbatim>\<open>X\<close> that this call returned, one channel after the other. \<^verbatim>\<open>max\<close> of an empty tensor
  raises a RuntimeError, so a channel without any value that is not NaN raises, and so
  does a split without records or rows. \<open>T\<close> is the argument \<^verbatim>\<open>n_timesteps\<close> of the
  constructor.
\<close>

definition dataset_setup :: "'f fops \<Rightarrow> (split_name \<Rightarrow> ('f, 'l) split_data) \<Rightarrow> split_name \<Rightarrow> nat
    \<Rightarrow> error + ('f, 'l) dataset" where
  "dataset_setup ops load sp T =
     (let Xs = split_X (load sp);
          chans = [0..<split_channels (load sp)]
      in if list_ex (\<lambda>i. channel_vals ops Xs i = []) chans then Inl RuntimeError
         else Inr \<lparr> split_name = sp, n_timesteps = T, data_X = Xs, data_y = split_y (load sp),
                    means = map (\<lambda>i. f_mean ops (channel_vals ops Xs i)) chans,
                    stds = map (\<lambda>i. f_std ops (channel_vals ops Xs i)) chans,
                    maxes = map (\<lambda>i. f_max ops (channel_vals ops Xs i)) chans,
                    mins = map (\<lambda>i. f_min ops (channel_vals ops Xs i)) chans \<rparr>)"

text \<open>Reading position \<open>i\<close> of a list with a non-negative index; out of range raises.\<close>

definition get :: "'a list \<Rightarrow> nat \<Rightarrow> error + 'a" where
  "get xs i = (if i < length xs then Inr (xs ! i) else Inl IndexError)"

text \<open>
  A Python integer used as an index into a dimension of size \<open>n\<close>: a negative index
  counts from the end, anything outside \<open>-n .. n-1\<close> raises.
\<close>

definition py_index :: "nat \<Rightarrow> int \<Rightarrow> error + nat" where
  "py_index n i =
     (if 0 \<le> i \<and> i < int n then Inr (nat i)
      else if - int n \<le> i \<and> i < 0 then Inr (nat (i + int n))
      else Inl IndexError)"

text \<open>
  Line 169:
  \<^verbatim>\<open>bin = self.n_timesteps - 1 if t == time[-1] else int(t / time[-1] * self.n_timesteps)\<close>
\<close>

definition bin_of :: "'f fops \<Rightarrow> nat \<Rightarrow> 'f \<Rightarrow> 'f \<Rightarrow> error + int" where
  "bin_of ops T t t_last =
     (if f_eq ops t t_last then Inr (int T - 1)
      else f_int ops (f_mul ops (f_div ops t t_last) (f_const ops (real T))))"

text \<open>\<^verbatim>\<open>(x_i - self.means[i]) / (self.stds[i] + 1e-7)\<close>\<close>

definition standardize :: "'f fops \<Rightarrow> 'f \<Rightarrow> 'f \<Rightarrow> 'f \<Rightarrow> 'f" where
  "standardize ops x m s = f_div ops (f_sub ops x m) (f_add ops s (f_const ops (1 / 10 ^ 7)))"

text \<open>The methods \<^verbatim>\<open>d_time_series_num\<close> and \<^verbatim>\<open>d_static_num\<close> of the data set.\<close>

definition d_time_series_num :: nat where
  "d_time_series_num = 36"

definition d_static_num :: nat where
  "d_static_num = 8"

text \<open>
  The body of the inner loop at one \<^verbatim>\<open>i_ts\<close> (lines 171 to 174): a NaN entry is skipped;
  otherwise the value cell of the bin is overwritten and its count cell gets one more.
\<close>

definition feat_step :: "'f fops \<Rightarrow> 'f list \<Rightarrow> 'f list \<Rightarrow> int \<Rightarrow> 'f list \<Rightarrow> 'f list list \<Rightarrow> nat
    \<Rightarrow> error + 'f list list" where
  "feat_step ops ms ss bin row x_ts i_ts =
     (case get row i_ts of Inl e \<Rightarrow> Inl e | Inr x_i \<Rightarrow>
      if f_isnan ops x_i then Inr x_ts
      else (case get ms i_ts of Inl e \<Rightarrow> Inl e | Inr m \<Rightarrow>
            case get ss i_ts of Inl e \<Rightarrow> Inl e | Inr s \<Rightarrow>
            case py_index (length x_ts) bin of Inl e \<Rightarrow> Inl e | Inr b \<Rightarrow>
            let r1 = (x_ts ! b)[i_ts - 1 := standardize ops x_i m s];
                c = i_ts - 1 + d_time_series_num
            in Inr (x_ts[b := r1[c := f_add ops (r1 ! c) (f_const ops 1)]])))"

text \<open>\<^verbatim>\<open>for i_ts in range(1, 37)\<close>, stopping at the first exception.\<close>

fun feat_loop :: "'f fops \<Rightarrow> 'f list \<Rightarrow> 'f list \<Rightarrow> int \<Rightarrow> 'f list \<Rightarrow> nat list \<Rightarrow> 'f list list
    \<Rightarrow> error + 'f list list" where
  "feat_loop ops ms ss bin row [] x_ts = Inr x_ts"
| "feat_loop ops ms ss bin row (i_ts # is) x_ts =
     (case feat_step ops ms ss bin row x_ts i_ts of Inl e \<Rightarrow> Inl e
      | Inr x_ts' \<Rightarrow> feat_loop ops ms ss bin row is x_ts')"

text \<open>
  \<^verbatim>\<open>for i_t, t in enumerate(time)\<close>: the rows \<^verbatim>\<open>ins\<close> are paired with their times, and
  \<open>t_last\<close> is \<^verbatim>\<open>time[-1]\<close>.
\<close>

fun obs_loop :: "'f fops \<Rightarrow> 'f list \<Rightarrow> 'f list \<Rightarrow> nat \<Rightarrow> 'f \<Rightarrow> ('f \<times> 'f list) list \<Rightarrow> 'f list list
    \<Rightarrow> error + 'f list list" where
  "obs_loop ops ms ss T t_last [] x_ts = Inr x_ts"
| "obs_loop ops ms ss T t_last ((t, row) # rest) x_ts =
     (case bin_of ops T t t_last of Inl e \<Rightarrow> Inl e | Inr bin \<Rightarrow>
      case feat_loop ops ms ss bin row [1..<37] x_ts of Inl e \<Rightarrow> Inl e
      | Inr x_ts' \<Rightarrow> obs_loop ops ms ss T t_last rest x_ts')"

text \<open>The static features (lines 178 to 181), read from the first row of \<^verbatim>\<open>ins\<close>.\<close>

fun static_loop :: "'f fops \<Rightarrow> 'f list \<Rightarrow> 'f list \<Rightarrow> 'f list list \<Rightarrow> nat list \<Rightarrow> 'f list
    \<Rightarrow> error + 'f list" where
  "static_loop ops ms ss ins [] x_static = Inr x_static"
| "static_loop ops ms ss ins (i_tab # is) x_static =
     (case get ins 0 of Inl e \<Rightarrow> Inl e | Inr row0 \<Rightarrow>
      case get row0 i_tab of Inl e \<Rightarrow> Inl e | Inr x_i \<Rightarrow>
      case get ms i_tab of Inl e \<Rightarrow> Inl e | Inr m \<Rightarrow>
      case get ss i_tab of Inl e \<Rightarrow> Inl e | Inr s \<Rightarrow>
      static_loop ops ms ss ins is
        (x_static[i_tab - 37 := f_nan_to_num ops (standardize ops x_i m s)]))"

text \<open>
  \<^verbatim>\<open>ins = self.X[i, ~torch.isnan(self.X[i, :, 0]), :]\<close> and \<^verbatim>\<open>time = ins[:, 0] / 60 / 24\<close>.
\<close>

definition record_ins :: "'f fops \<Rightarrow> 'f list list \<Rightarrow> 'f list list" where
  "record_ins ops rec = filter (\<lambda>row. \<not> f_isnan ops (row ! 0)) rec"

definition record_time :: "'f fops \<Rightarrow> 'f list list \<Rightarrow> 'f list" where
  "record_time ops ins =
     map (\<lambda>row. f_div ops (f_div ops (row ! 0) (f_const ops 60)) (f_const ops 24)) ins"

text \<open>The pairs \<^verbatim>\<open>(t, ins[i_t])\<close> that \<^verbatim>\<open>enumerate(time)\<close> runs over.\<close>

definition record_obs :: "'f fops \<Rightarrow> 'f list list \<Rightarrow> ('f \<times> 'f list) list" where
  "record_obs ops rec = zip (record_time ops (record_ins ops rec)) (record_ins ops rec)"

text \<open>
  \<^verbatim>\<open>PhysioNetDataset.__getitem__\<close> with the cache off (the cache only returns what an
  earlier call computed). The index \<open>i\<close> is the non-negative index a data loader passes.
  The result is \<^verbatim>\<open>((x_ts, x_static, bin_ends), y)\<close>. The exceptions come in the order of
  the source: the loop over the rows, \<^verbatim>\<open>time[-1]\<close> of a record without rows, the static
  features, the label.
\<close>

definition getitem :: "'f fops \<Rightarrow> ('f, 'l) dataset \<Rightarrow> nat
    \<Rightarrow> error + (('f list list \<times> 'f list \<times> 'f list) \<times> 'l)" where
  "getitem ops ds i =
     (case get (data_X ds) i of Inl e \<Rightarrow> Inl e | Inr rec \<Rightarrow>
      if n_channels (data_X ds) = 0 then Inl IndexError
      else
        let T = n_timesteps ds;
            ins = record_ins ops rec;
            time = record_time ops ins;
            x_static0 = replicate d_static_num (f_const ops 0);
            x_ts0 = replicate T (replicate (d_time_series_num * 2) (f_const ops 0))
        in (case obs_loop ops (means ds) (stds ds) T (last time) (record_obs ops rec) x_ts0 of
              Inl e \<Rightarrow> Inl e
            | Inr x_ts \<Rightarrow>
              if time = [] then Inl IndexError
              else
                let bin_ends = map (\<lambda>k. f_mul ops (f_div ops (f_const ops (real k)) (f_const ops (real T)))
                                          (last time)) [1..<T + 1]
                in (case static_loop ops (means ds) (stds ds) ins [37..<45] x_static0 of
                      Inl e \<Rightarrow> Inl e
                    | Inr x_static \<Rightarrow>
                      (case get (data_y ds) i of Inl e \<Rightarrow> Inl e | Inr yi \<Rightarrow>
                       case get yi 0 of Inl e \<Rightarrow> Inl e
                       | Inr y0 \<Rightarrow> Inr ((x_ts, x_static, bin_ends), y0)))))"

text \<open>The bins that the loop of \<^verbatim>\<open>__getitem__\<close> computes for the rows of a record, in order.\<close>

definition record_bins :: "'f fops \<Rightarrow> nat \<Rightarrow> 'f list \<Rightarrow> (error + int) list" where
  "record_bins ops T time = map (\<lambda>t. bin_of ops T t (last time)) time"

text \<open>
  The rows of a record that the loop of \<^verbatim>\<open>__getitem__\<close> writes into the cell of bin \<open>b\<close> and
  event type \<open>e\<close> (channel \<open>e + 1\<close>): their bin is \<open>b\<close> and their entry for the event type
  is not NaN. \<open>cell_obs\<close> keeps them in the order of the loop.
\<close>

definition falls_in :: "'f fops \<Rightarrow> nat \<Rightarrow> 'f \<Rightarrow> nat \<Rightarrow> nat \<Rightarrow> 'f \<times> 'f list \<Rightarrow> bool" where
  "falls_in ops T t_last b e ob =
     (case bin_of ops T (fst ob) t_last of Inl _ \<Rightarrow> False
      | Inr bin \<Rightarrow> py_index T bin = Inr b \<and> \<not> f_isnan ops (snd ob ! (e + 1)))"

definition cell_obs :: "'f fops \<Rightarrow> nat \<Rightarrow> 'f \<Rightarrow> nat \<Rightarrow> nat \<Rightarrow> ('f \<times> 'f list) list
    \<Rightarrow> ('f \<times> 'f list) list" where
  "cell_obs ops T t_last b e obs = filter (falls_in ops T t_last b e) obs"

text \<open>\<^verbatim>\<open>+= 1\<close> on a count cell.\<close>

definition incr :: "'f fops \<Rightarrow> 'f \<Rightarrow> 'f" where
  "incr ops c = f_add ops c (f_const ops 1)"

text \<open>Every row of \<^verbatim>\<open>x_ts\<close> has \<^verbatim>\<open>d_time_series_num * 2\<close> columns.\<close>

definition shape_ok :: "'f list list \<Rightarrow> bool" where
  "shape_ok x = list_all (\<lambda>r. length r = d_time_series_num * 2) x"

text \<open>The tensor \<^verbatim>\<open>x_ts\<close> of a result of \<open>getitem\<close>.\<close>

definition x_ts_of :: "error + (('f list list \<times> 'f list \<times> 'f list) \<times> 'l) \<Rightarrow> 'f list list" where
  "x_ts_of r = (case r of Inl _ \<Rightarrow> [] | Inr ((x_ts, _, _), _) \<Rightarrow> x_ts)"

subsection \<open>A concrete loader\<close>

text \<open>
  A loader with two records of three rows in every split. The first record has three
  observations of event type 0 (channel 1) at minutes 0, 1 and 2; the second record fills
  the other channels once and is padding otherwise, as torchtime pads with NaN. The
  training split has the values -1, 0, 1 on channel 1, the other splits 9, 10, 11.
  \<open>cx_train\<close> and \<open>cx_val\<close> are the data sets that \<open>dataset_setup\<close> builds from it with
  two time bins, \<open>cx_load'\<close> is the same loader with another training split.
\<close>

definition cx_row :: "real \<Rightarrow> real \<Rightarrow> real option list" where
  "cx_row t v = Some t # Some v # replicate 43 None"

definition cx_fill :: "real option list list" where
  "cx_fill = [None # None # replicate 43 (Some 5), replicate 45 None, replicate 45 None]"

definition cx_load :: "split_name \<Rightarrow> (real option, nat) split_data" where
  "cx_load sp = (case sp of
       Train \<Rightarrow> \<lparr> split_X = [[cx_row 0 (-1), cx_row 1 0, cx_row 2 1], cx_fill],
                   split_channels = 45, split_y = [[0], [0]] \<rparr>
     | Val \<Rightarrow> \<lparr> split_X = [[cx_row 0 9, cx_row 1 10, cx_row 2 11], cx_fill],
                 split_channels = 45, split_y = [[1], [0]] \<rparr>
     | Test \<Rightarrow> \<lparr> split_X = [[cx_row 0 9, cx_row 1 10, cx_row 2 11], cx_fill],
                  split_channels = 45, split_y = [[1], [0]] \<rparr>)"

definition cx_load' :: "split_name \<Rightarrow> (real option, nat) split_data" where
  "cx_load' sp = (case sp of
       Train \<Rightarrow> \<lparr> split_X = [[cx_row 0 99, cx_row 1 100, cx_row 2 101], cx_fill],
                   split_channels = 45, split_y = [[0], [0]] \<rparr>
     | Val \<Rightarrow> \<lparr> split_X = [[cx_row 0 9, cx_row 1 10, cx_row 2 11], cx_fill],
                 split_channels = 45, split_y = [[1], [0]] \<rparr>
     | Test \<Rightarrow> \<lparr> split_X = [[cx_row 0 9, cx_row 1 10, cx_row 2 11], cx_fill],
                  split_channels = 45, split_y = [[1], [0]] \<rparr>)"

text \<open>A loader whose splits hold no record; the tensor still has its 45 channels.\<close>

definition empty_load :: "split_name \<Rightarrow> (real option, nat) split_data" where
  "empty_load sp = \<lparr> split_X = [], split_channels = 45, split_y = [] \<rparr>"

definition cx_train :: "(real option, nat) dataset" where
  "cx_train = \<lparr> split_name = Train, n_timesteps = 2,
     data_X = [[cx_row 0 (-1), cx_row 1 0, cx_row 2 1], cx_fill], data_y = [[0], [0]],
     means = Some 1 # Some 0 # replicate 43 (Some 5),
     stds = Some 1 # Some 1 # replicate 43 None,
     maxes = Some 2 # Some 1 # replicate 43 (Some 5),
     mins = Some 0 # Some (-1) # replicate 43 (Some 5) \<rparr>"

definition cx_val :: "(real option, nat) dataset" where
  "cx_val = \<lparr> split_name = Val, n_timesteps = 2,
     data_X = [[cx_row 0 9, cx_row 1 10, cx_row 2 11], cx_fill], data_y = [[1], [0]],
     means = Some 1 # Some 10 # replicate 43 (Some 5),
     stds = Some 1 # Some 1 # replicate 43 None,
     maxes = Some 2 # Some 11 # replicate 43 (Some 5),
     mins = Some 0 # Some 9 # replicate 43 (Some 5) \<rparr>"

text \<open>
  A data set with one record whose rows have the time stamps 0, 10 and 59.999 minutes,
  binned into four bins.
\<close>

definition spec_ds :: "(real option, nat) dataset" where
  "spec_ds = \<lparr> split_name = Val, n_timesteps = 4,
     data_X = [[cx_row 0 9, cx_row 10 10, cx_row (59999 / 1000) 11]], data_y = [[1]],
     means = Some 1 # Some 10 # replicate 43 (Some 5),
     stds = Some 1 # Some 1 # replicate 43 None,
     maxes = [], mins = [] \<rparr>"

section \<open>Loading a checkpoint: \<^verbatim>\<open>Model.on_load_checkpoint\<close>\<close>

text \<open>
  A state dict is a Python dict from parameter names to tensors, here an association list
  in insertion order with distinct keys. Of a tensor only its shape and its contents
  matter; the contents are a value of any type.
\<close>

record 'v tensor =
  shape :: "nat list"
  payload :: 'v

type_synonym 'v state_dict = "(string \<times> 'v tensor) list"

text \<open>\<^verbatim>\<open>d[k] = v\<close>: an existing key keeps its position, a new key goes to the end.\<close>

definition dict_set :: "('k \<times> 'a) list \<Rightarrow> 'k \<Rightarrow> 'a \<Rightarrow> ('k \<times> 'a) list" where
  "dict_set d k v =
     (if map_of d k = None then d @ [(k, v)]
      else map (\<lambda>(k', v'). if k' = k then (k', v) else (k', v')) d)"

text \<open>What the function prints.\<close>

datatype report =
    Loading_from_checkpoint
  | Skip_loading string "nat list" "nat list"
  | Dropping string
  | Freezing
  | Skip_freezing string

text \<open>
  The first loop (lines 926 to 929): a key of the model that the checkpoint lacks is added
  with the model's tensor. The state is the state dict and \<^verbatim>\<open>is_changed\<close>.
\<close>

definition add_missing_step :: "'v state_dict \<Rightarrow> 'v state_dict \<times> bool \<Rightarrow> string \<Rightarrow> 'v state_dict \<times> bool" where
  "add_missing_step model_sd st k =
     (case st of (sd, changed) \<Rightarrow>
        if map_of sd k = None then (dict_set sd k (the (map_of model_sd k)), True)
        else (sd, changed))"

text \<open>
  The body of the second loop (lines 932 to 942) at key \<open>k\<close>. The state is the state
  dict, \<^verbatim>\<open>is_changed\<close> and the printed lines. The branch for a key that the model does
  not have prints and sets the flag; it does not assign to the state dict.
\<close>

definition check_step :: "'v state_dict \<Rightarrow> 'v state_dict \<times> bool \<times> report list \<Rightarrow> string
    \<Rightarrow> 'v state_dict \<times> bool \<times> report list" where
  "check_step model_sd st k =
     (case st of (sd, changed, out) \<Rightarrow>
        (case map_of model_sd k of
           Some mt \<Rightarrow>
             (case map_of sd k of
                Some ct \<Rightarrow>
                  if take 4 k = ''head'' \<and> shape ct \<noteq> shape mt
                  then (dict_set sd k mt, True, out @ [Skip_loading k (shape mt) (shape ct)])
                  else (sd, changed, out)
              | None \<Rightarrow> (sd, changed, out))
         | None \<Rightarrow> (sd, True, out @ [Dropping k])))"

text \<open>
  \<^verbatim>\<open>self.freeze()\<close>: a parameter whose name does not contain \<^verbatim>\<open>head\<close> stops requiring a
  gradient. The parameters are the names with their \<^verbatim>\<open>requires_grad\<close> flags.
\<close>

fun contains_head :: "string \<Rightarrow> bool" where
  "contains_head [] = False"
| "contains_head (c # cs) = (take 4 (c # cs) = ''head'' \<or> contains_head cs)"

definition freeze :: "(string \<times> bool) list \<Rightarrow> (string \<times> bool) list \<times> report list" where
  "freeze params =
     (map (\<lambda>(n, g). if contains_head n then (n, g) else (n, False)) params,
      Freezing # map Skip_freezing (filter contains_head (map fst params)))"

record ('v, 'o) checkpoint =
  state_dict :: "'v state_dict"
  optimizer_states :: "'o option"

record 'v lightning_model =
  model_state_dict :: "'v state_dict"
  named_parameters :: "(string \<times> bool) list"
  freeze_encoder :: bool

text \<open>
  \<^verbatim>\<open>on_load_checkpoint\<close> changes the checkpoint and the model in place and prints; the
  result is the checkpoint, the model and the printed lines. The second loop runs over
  the keys that the state dict has when it starts; its body replaces values only, so the
  keys do not change while it runs.
\<close>

definition on_load_checkpoint :: "'v lightning_model \<Rightarrow> ('v, 'o) checkpoint
    \<Rightarrow> ('v, 'o) checkpoint \<times> 'v lightning_model \<times> report list" where
  "on_load_checkpoint self ckpt =
     (let model_sd = model_state_dict self;
          (sd1, changed1) = fold (\<lambda>k st. add_missing_step model_sd st k) (map fst model_sd)
                              (state_dict ckpt, False);
          (sd2, changed2, out) = fold (\<lambda>k st. check_step model_sd st k) (map fst sd1)
                              (sd1, changed1, [Loading_from_checkpoint]);
          ckpt' = ckpt\<lparr> state_dict := sd2,
                        optimizer_states := (if changed2 then None else optimizer_states ckpt) \<rparr>
      in if freeze_encoder self
         then (case freeze (named_parameters self) of
                 (ps, out') \<Rightarrow> (ckpt', self\<lparr> named_parameters := ps \<rparr>, out @ out'))
         else (ckpt', self, out))"

subsection \<open>A checkpoint with another head shape and an entry the model does not have\<close>

definition lc_model :: "string lightning_model" where
  "lc_model = \<lparr> model_state_dict =
       [(''head.0.weight'', \<lparr> shape = [1, 64], payload = ''fresh head'' \<rparr>),
        (''tab_encoder.0.weight'', \<lparr> shape = [128, 8], payload = ''fresh encoder'' \<rparr>)],
     named_parameters = [(''head.0.weight'', True), (''tab_encoder.0.weight'', True)],
     freeze_encoder = False \<rparr>"

definition lc_checkpoint :: "(string, string) checkpoint" where
  "lc_checkpoint = \<lparr> state_dict =
       [(''head.0.weight'', \<lparr> shape = [36, 64], payload = ''saved head'' \<rparr>),
        (''tab_encoder.0.weight'', \<lparr> shape = [128, 8], payload = ''saved encoder'' \<rparr>),
        (''pretrain_value_proj.0.weight'', \<lparr> shape = [36, 888], payload = ''saved projection'' \<rparr>)],
     optimizer_states = Some ''adam'' \<rparr>"

section \<open>Constructing the model: the transformer stack of \<^verbatim>\<open>Model.__init__\<close>\<close>

text \<open>
  The part of \<^verbatim>\<open>Model.__init__\<close> that reads \<^verbatim>\<open>d_embedding\<close> and \<^verbatim>\<open>n_transformer_head\<close>
  together (lines 461 to 484). The hyperparameters are Python integers. The constructor
  \<^verbatim>\<open>x_transformers.Encoder\<close> belongs to a library; it is the parameter \<open>enc\<close>, which
  receives the keyword arguments and returns an encoder or raises. The other submodules of
  \<^verbatim>\<open>__init__\<close> are built from the sizes alone and never read \<^verbatim>\<open>n_transformer_head\<close>.
\<close>

record hyperparameters =
  hp_d_time_series_num :: int
  hp_d_embedding :: int
  hp_d_feedforward :: "int option"
  hp_n_transformer_head :: int
  hp_n_duett_layers :: nat
  hp_masked_transform_timesteps :: int
  hp_norm_first :: bool
  hp_scalenorm :: bool
  hp_glu :: bool
  hp_transformer_dropout :: real

record encoder_args =
  dim :: int
  depth :: int
  heads :: int
  pre_norm :: bool
  use_scalenorm :: bool
  attn_dim_head :: int
  ff_glu :: bool
  ff_mult :: real
  attn_dropout :: real
  ff_dropout :: real

text \<open>Python's \<^verbatim>\<open>//\<close> and \<^verbatim>\<open>/\<close> on integers; both raise on a zero divisor.\<close>

definition py_floordiv :: "int \<Rightarrow> int \<Rightarrow> error + int" where
  "py_floordiv a b = (if b = 0 then Inl ZeroDivisionError else Inr (a div b))"

definition py_truediv :: "int \<Rightarrow> int \<Rightarrow> error + real" where
  "py_truediv a b = (if b = 0 then Inl ZeroDivisionError else Inr (real_of_int a / real_of_int b))"

text \<open>
  The keyword arguments of one \<^verbatim>\<open>x_transformers.Encoder(...)\<close> call for the width \<open>d\<close>
  (\<^verbatim>\<open>et_dim\<close> or \<^verbatim>\<open>tt_dim\<close>), evaluated in the order of the source.
\<close>

definition encoder_kwargs :: "hyperparameters \<Rightarrow> int \<Rightarrow> int \<Rightarrow> error + encoder_args" where
  "encoder_kwargs hp d_feedforward d =
     (case py_floordiv (hp_d_embedding hp) (hp_n_transformer_head hp) of Inl e \<Rightarrow> Inl e
      | Inr dh \<Rightarrow>
     (case py_truediv d_feedforward d of Inl e \<Rightarrow> Inl e
      | Inr fm \<Rightarrow>
        Inr \<lparr> dim = d, depth = 1, heads = hp_n_transformer_head hp, pre_norm = hp_norm_first hp,
              use_scalenorm = hp_scalenorm hp, attn_dim_head = dh, ff_glu = hp_glu hp,
              ff_mult = fm, attn_dropout = hp_transformer_dropout hp,
              ff_dropout = hp_transformer_dropout hp \<rparr>))"

text \<open>
  \<^verbatim>\<open>[x_transformers.Encoder(...) for _ in range(n_duett_layers)]\<close>: the arguments are
  evaluated once per layer, so nothing is evaluated for no layer.
\<close>

fun encoder_list :: "(encoder_args \<Rightarrow> error + 'enc) \<Rightarrow> hyperparameters \<Rightarrow> int \<Rightarrow> int \<Rightarrow> nat
    \<Rightarrow> error + 'enc list" where
  "encoder_list enc hp d_feedforward d 0 = Inr []"
| "encoder_list enc hp d_feedforward d (Suc n) =
     (case encoder_kwargs hp d_feedforward d of Inl e \<Rightarrow> Inl e
      | Inr args \<Rightarrow>
     (case enc args of Inl e \<Rightarrow> Inl e
      | Inr t \<Rightarrow>
     (case encoder_list enc hp d_feedforward d n of Inl e \<Rightarrow> Inl e
      | Inr ts \<Rightarrow> Inr (t # ts))))"

record 'enc transformer_stack =
  event_transformers :: "'enc list"
  time_transformers :: "'enc list"

definition model_init :: "(encoder_args \<Rightarrow> error + 'enc) \<Rightarrow> hyperparameters
    \<Rightarrow> error + 'enc transformer_stack" where
  "model_init enc hp =
     (let d_feedforward = (case hp_d_feedforward hp of None \<Rightarrow> hp_d_embedding hp * 4 | Some v \<Rightarrow> v);
          et_dim = hp_d_embedding hp * (hp_masked_transform_timesteps hp + 1);
          tt_dim = hp_d_embedding hp * (hp_d_time_series_num hp + 1)
      in (case encoder_list enc hp d_feedforward et_dim (hp_n_duett_layers hp) of Inl e \<Rightarrow> Inl e
          | Inr ets \<Rightarrow>
         (case encoder_list enc hp d_feedforward tt_dim (hp_n_duett_layers hp) of Inl e \<Rightarrow> Inl e
          | Inr tts \<Rightarrow> Inr \<lparr> event_transformers = ets, time_transformers = tts \<rparr>)))"

text \<open>
  The defaults of \<^verbatim>\<open>Model.__init__\<close> with \<open>h\<close> attention heads; the default embedding
  width is 24. \<open>accept\<close> is an encoder constructor that takes any arguments, as the
  attention of x-transformers takes \<^verbatim>\<open>dim_head\<close> as a free parameter.
\<close>

definition default_hp :: "int \<Rightarrow> hyperparameters" where
  "default_hp h = \<lparr> hp_d_time_series_num = 36, hp_d_embedding = 24, hp_d_feedforward = Some 512,
     hp_n_transformer_head = h, hp_n_duett_layers = 2, hp_masked_transform_timesteps = 32,
     hp_norm_first = True, hp_scalenorm = True, hp_glu = False, hp_transformer_dropout = 0 \<rparr>"

definition accept :: "encoder_args \<Rightarrow> error + encoder_args" where
  "accept args = Inr args"

text \<open>An encoder constructor that raises for a head width below one.\<close>

definition needs_head_width :: "encoder_args \<Rightarrow> error + encoder_args" where
  "needs_head_width args = (if attn_dim_head args < 1 then Inl ValueError else Inr args)"

section \<open>The masking policy of \<^verbatim>\<open>Model.pretrain_prep_batch\<close>\<close>

text \<open>
  \<^verbatim>\<open>self.rng\<close> is a NumPy generator. Its bit generator is outside the repository: the
  generator is modelled as the stream of its raw draws and the position in the stream,
  and a draw from \<^verbatim>\<open>arange(n)\<close> reduces the next raw draw into \<open>0 .. n-1\<close>.
  \<^verbatim>\<open>rng.choice(np.arange(n))\<close> is one draw. \<^verbatim>\<open>rng.choice(np.arange(n), size=k)\<close> is called
  without \<^verbatim>\<open>replace=False\<close>, and NumPy's default is \<^verbatim>\<open>replace=True\<close>: it makes \<open>k\<close>
  independent draws.
\<close>

record rng =
  draws :: "nat \<Rightarrow> nat"
  pos :: nat

definition rng_integers :: "rng \<Rightarrow> nat \<Rightarrow> nat \<times> rng" where
  "rng_integers g n = (draws g (pos g) mod n, g\<lparr> pos := pos g + 1 \<rparr>)"

fun rng_choice :: "rng \<Rightarrow> nat \<Rightarrow> nat \<Rightarrow> nat list \<times> rng" where
  "rng_choice g n 0 = ([], g)"
| "rng_choice g n (Suc k) =
     (case rng_integers g n of (i, g1) \<Rightarrow>
      case rng_choice g1 n k of (is, g2) \<Rightarrow> (i # is, g2))"

text \<open>\<^verbatim>\<open>mask_i\<close> is a single index or an array of indices.\<close>

datatype mask_index = Index nat | Indices "nat list"

text \<open>
  Lines 598 to 606, for a record with \<open>n\<close> real bins; \<open>steps\<close> is
  \<^verbatim>\<open>self.pretrain_masked_steps\<close>.
\<close>

definition choose_mask :: "rng \<Rightarrow> int \<Rightarrow> nat \<Rightarrow> mask_index \<times> rng" where
  "choose_mask g steps n =
     (if n < 2 then (Index n, g)
      else if steps > 1 then
        (if steps > int n then (Indices [0..<n], g)
         else (case rng_choice g n (nat steps) of (is, g') \<Rightarrow> (Indices is, g')))
      else (case rng_integers g n of (i, g') \<Rightarrow> (Index i, g')))"

text \<open>The bins that \<^verbatim>\<open>mask_i\<close> selects, in order.\<close>

fun selected :: "mask_index \<Rightarrow> nat list" where
  "selected (Index i) = [i]"
| "selected (Indices is) = is"

text \<open>
  Lines 607 to 611 for one record: \<open>rows\<close> is \<^verbatim>\<open>xs_ts[batch_i]\<close>, padded to the length of
  the longest record of the batch, \<open>clipped\<close> is \<^verbatim>\<open>xs_ts_clipped[batch_i]\<close>. The selected
  rows give the targets (one row for a single index), and in \<open>clipped\<close> they are set to
  zero with the flag in the last column set to one. An index beyond the padded length
  raises.
\<close>

definition masked_row :: "'f fops \<Rightarrow> nat \<Rightarrow> 'f list" where
  "masked_row ops c = (replicate c (f_const ops 0))[c - 1 := f_const ops 1]"

definition apply_mask :: "'f fops \<Rightarrow> nat \<Rightarrow> mask_index \<Rightarrow> 'f list list \<Rightarrow> 'f list list
    \<Rightarrow> error + ('f list list \<times> 'f list list \<times> 'f list list)" where
  "apply_mask ops n_vars mask_i rows clipped =
     (if list_ex (\<lambda>i. length rows \<le> i) (selected mask_i) then Inl IndexError
      else Inr (map (\<lambda>i. take n_vars (rows ! i)) (selected mask_i),
                map (\<lambda>i. take n_vars (drop n_vars (rows ! i))) (selected mask_i),
                fold (\<lambda>i c. c[i := masked_row ops (length (c ! i))]) (selected mask_i) clipped))"

text \<open>Generators for the examples: every raw draw is 5, and the raw draws 0, 1, 2, ...\<close>

definition rng_fives :: rng where
  "rng_fives = \<lparr> draws = (\<lambda>k. 5), pos = 0 \<rparr>"

definition rng_count :: rng where
  "rng_count = \<lparr> draws = (\<lambda>k. k), pos = 0 \<rparr>"

section \<open>The embedding step of \<^verbatim>\<open>Model.forward\<close>\<close>

text \<open>
  The learned modules that the embedding step applies. An embedding vector is a list of
  entries. \<^verbatim>\<open>n_obs_embedding\<close> and \<^verbatim>\<open>special_embeddings\<close> are lookup tables. An embedding
  layer receives a slice of shape (batch, bins, 2), given by its two sizes and its entries,
  and returns the vectors of a slice of shape (batch, bins, d); its batch normalisation
  makes a vector depend on the whole slice. \<^verbatim>\<open>tab_encoder\<close> maps the static features of
  the batch to one vector per record.
\<close>

record 'f embedder =
  n_obs_embedding :: "nat \<Rightarrow> 'f"
  embedding_layers :: "(nat \<times> nat \<Rightarrow> (nat \<Rightarrow> nat \<Rightarrow> 'f \<times> 'f) \<Rightarrow> nat \<Rightarrow> nat \<Rightarrow> 'f list) list"
  tab_encoder :: "'f list list \<Rightarrow> nat \<Rightarrow> 'f list"
  special_embeddings :: "nat \<Rightarrow> 'f list"
  d_embedding :: nat
  predict_events :: bool

definition MASKED_EMBEDDING_KEY :: nat where
  "MASKED_EMBEDDING_KEY = 0"

definition REPRESENTATION_EMBEDDING_KEY :: nat where
  "REPRESENTATION_EMBEDDING_KEY = 1"

text \<open>
  \<^verbatim>\<open>xs_feats\<close> has shape (batch, bins, channels): a list of records, each a list of rows.
  \<open>n_bins\<close> is \<^verbatim>\<open>xs_feats.shape[1]\<close>; \<^verbatim>\<open>xs_feats.shape[2]\<close> is \<open>n_channels\<close>.
\<close>

definition n_bins :: "'f list list list \<Rightarrow> nat" where
  "n_bins xs = (case xs of [] \<Rightarrow> 0 | r # _ \<Rightarrow> length r)"

text \<open>
  Lines 657 and 660: \<^verbatim>\<open>.to(int).clip(0, 15)\<close> and the lookup, written back into the
  count columns \<^verbatim>\<open>n_vars:n_vars*2\<close> of \<^verbatim>\<open>xs_feats\<close> itself; \<^verbatim>\<open>n_vars\<close> is
  \<^verbatim>\<open>xs_feats.shape[2] // 2\<close>, half the length of every row.
\<close>

definition count_embed :: "'f fops \<Rightarrow> 'f embedder \<Rightarrow> 'f \<Rightarrow> 'f" where
  "count_embed ops m c = n_obs_embedding m (nat (min 15 (max 0 (f_trunc ops c))))"

definition embed_counts_row :: "'f fops \<Rightarrow> 'f embedder \<Rightarrow> 'f list \<Rightarrow> 'f list" where
  "embed_counts_row ops m row =
     (let n_vars = length row div 2
      in take n_vars row @ map (count_embed ops m) (take n_vars (drop n_vars row))
           @ drop (2 * n_vars) row)"

definition embed_counts :: "'f fops \<Rightarrow> 'f embedder \<Rightarrow> 'f list list list \<Rightarrow> 'f list list list" where
  "embed_counts ops m xs = map (map (embed_counts_row ops m)) xs"

text \<open>
  Lines 652 to 654: the cells whose count is the sentinel -1, read before the counts are
  overwritten; the row appended for the representation token repeats the first row.
\<close>

definition event_mask_inds :: "'f fops \<Rightarrow> 'f list list list \<Rightarrow> nat \<Rightarrow> nat \<Rightarrow> nat \<Rightarrow> bool" where
  "event_mask_inds ops xs b t v =
     (let n_vars = n_channels xs div 2;
          t' = (if t = n_bins xs then 0 else t)
      in v < n_vars \<and> f_eq ops (xs ! b ! t' ! (n_vars + v)) (f_const ops (- 1)))"

text \<open>Line 681, read from \<^verbatim>\<open>xs_feats\<close> after line 660: the flag is the last channel.\<close>

definition mask_inds :: "'f fops \<Rightarrow> 'f list list list \<Rightarrow> nat \<Rightarrow> nat \<Rightarrow> bool" where
  "mask_inds ops xs b t =
     (t < n_bins xs \<and> f_eq ops (xs ! b ! t ! (n_channels xs - 1)) (f_const ops 1))"

text \<open>
  Lines 648 to 688. \<^verbatim>\<open>psi\<close> has shape (batch, bins + 1, n_vars + 1, d) and is given by its
  cells \<open>psi b t v\<close>. The assignments are made in the order of the source: the embedding
  layers, the static column, the row of the representation token, the masked rows, the
  cells of the masked event type. The result is \<^verbatim>\<open>psi\<close> and \<^verbatim>\<open>xs_feats\<close> as the step
  leaves it. More embedding layers than event types, no channel at all, and with
  \<^verbatim>\<open>predict_events\<close> a batch without bins make an index or a mask run out of range.
\<close>

definition embed_step :: "'f fops \<Rightarrow> 'f embedder \<Rightarrow> 'f list list \<Rightarrow> 'f list list list
    \<Rightarrow> error + ((nat \<Rightarrow> nat \<Rightarrow> nat \<Rightarrow> 'f list) \<times> 'f list list list)" where
  "embed_step ops m xs_static xs_feats =
     (let B = length xs_feats; T = n_bins xs_feats;
          n_vars = n_channels xs_feats div 2;
          xs_feats' = embed_counts ops m xs_feats;
          input = (\<lambda>i b t. (xs_feats' ! b ! t ! i, xs_feats' ! b ! t ! (n_vars + i)));
          psi0 = (\<lambda>b t v. replicate (d_embedding m) (f_const ops 0));
          psi1 = (\<lambda>b t v. if t < T \<and> v < length (embedding_layers m)
                            then (embedding_layers m ! v) (B, T) (input v) b t else psi0 b t v);
          psi2 = (\<lambda>b t v. if t < T \<and> v = n_vars then tab_encoder m xs_static b else psi1 b t v);
          psi3 = (\<lambda>b t v. if t = T then special_embeddings m REPRESENTATION_EMBEDDING_KEY
                            else psi2 b t v);
          psi4 = (\<lambda>b t v. if mask_inds ops xs_feats' b t
                            then special_embeddings m MASKED_EMBEDDING_KEY else psi3 b t v);
          psi5 = (\<lambda>b t v. if predict_events m \<and> event_mask_inds ops xs_feats b t v
                            then special_embeddings m MASKED_EMBEDDING_KEY else psi4 b t v)
      in if n_channels xs_feats = 0 then Inl IndexError
         else if n_vars < length (embedding_layers m) then Inl IndexError
         else if predict_events m \<and> T = 0 then Inl IndexError
         else Inr (psi5, xs_feats'))"

text \<open>
  \<^verbatim>\<open>Model.forward\<close>. Lines 690 to 756 (the attention stack, the fusion and the heads)
  compute the outputs from the mode, \<^verbatim>\<open>psi\<close>, \<^verbatim>\<open>event_mask_inds\<close>, \<^verbatim>\<open>xs_feats\<close> and
  \<^verbatim>\<open>xs_times\<close> and assign to none of the input tensors; they are the parameter
  \<open>stack_and_heads\<close>. The result is the output
  together with the batch \<^verbatim>\<open>(xs_static, xs_feats, xs_times, n_timesteps)\<close> as the call
  leaves it (\<open>lens\<close> is the list \<^verbatim>\<open>n_timesteps\<close>).
\<close>

datatype forward_mode = Supervised | Pretrain | Representation

definition forward :: "'f fops \<Rightarrow> 'f embedder
    \<Rightarrow> (forward_mode \<Rightarrow> (nat \<Rightarrow> nat \<Rightarrow> nat \<Rightarrow> 'f list) \<Rightarrow> (nat \<Rightarrow> nat \<Rightarrow> nat \<Rightarrow> bool)
          \<Rightarrow> 'f list list list \<Rightarrow> 'f list list \<Rightarrow> 'out)
    \<Rightarrow> forward_mode \<Rightarrow> 'f list list \<times> 'f list list list \<times> 'f list list \<times> nat list
    \<Rightarrow> error + ('out \<times> ('f list list \<times> 'f list list list \<times> 'f list list \<times> nat list))" where
  "forward ops m stack_and_heads mode x =
     (case x of (xs_static, xs_feats, xs_times, lens) \<Rightarrow>
        (case embed_step ops m xs_static xs_feats of Inl e \<Rightarrow> Inl e
         | Inr (psi, xs_feats') \<Rightarrow>
             Inr (stack_and_heads mode psi (event_mask_inds ops xs_feats) xs_feats' xs_times,
                  (xs_static, xs_feats', xs_times, lens))))"

text \<open>
  A stand-in for lines 690 to 756 in the examples: it returns the mode it was called in.
\<close>

definition mode_only :: "forward_mode \<Rightarrow> (nat \<Rightarrow> nat \<Rightarrow> nat \<Rightarrow> real option list)
    \<Rightarrow> (nat \<Rightarrow> nat \<Rightarrow> nat \<Rightarrow> bool) \<Rightarrow> real option list list list \<Rightarrow> real option list list
    \<Rightarrow> forward_mode" where
  "mode_only mode psi event_mask xs ts = mode"

text \<open>Every record has \<open>n_bins\<close> rows and every row \<open>n_channels\<close> entries, as in a tensor.\<close>

definition rectangular :: "'f list list list \<Rightarrow> bool" where
  "rectangular xs =
     list_all (\<lambda>r. length r = n_bins xs \<and> list_all (\<lambda>row. length row = n_channels xs) r) xs"

text \<open>
  An embedder and a batch for the examples: one event type, two bins, vectors of width
  one. The count embedding of \<open>k\<close> observations is \<open>k / 2\<close>.
\<close>

definition ex_embedder :: "real option embedder" where
  "ex_embedder = \<lparr> n_obs_embedding = (\<lambda>k. Some (real k / 2)),
     embedding_layers = [\<lambda>sz inp b t. [fst (inp b t)]],
     tab_encoder = (\<lambda>st b. [Some 7]),
     special_embeddings = (\<lambda>k. [Some (100 + real k)]),
     d_embedding = 1, predict_events = True \<rparr>"

definition ex_batch :: "real option list list \<times> real option list list list \<times> real option list list \<times> nat list" where
  "ex_batch = ([[Some 3]], [[[Some 4, Some 1, Some 0], [Some 0, Some 0, Some 1]]],
               [[Some (1 / 2), Some 1]], [2])"

section \<open>Verified properties\<close>

subsection \<open>Evaluation on concrete inputs\<close>

lemma exact_ops_sel [simp]:
  "f_isnan exact_ops None"
  "\<not> f_isnan exact_ops (Some u)"
  "f_eq exact_ops (Some u) (Some v) = (u = v)"
  "f_eq exact_ops None b = False"
  "f_eq exact_ops a None = False"
  "f_add exact_ops = lift2 (+)"
  "f_sub exact_ops = lift2 (-)"
  "f_mul exact_ops = lift2 (*)"
  "f_div exact_ops a b = (if b = Some 0 then None else lift2 (/) a b)"
  "f_const exact_ops = Some"
  "f_int exact_ops None = Inl ValueError"
  "f_int exact_ops (Some u) = Inr (if 0 \<le> u then \<lfloor>u\<rfloor> else \<lceil>u\<rceil>)"
  "f_nan_to_num exact_ops None = Some 0"
  "f_nan_to_num exact_ops (Some u) = Some u"
  by (simp_all add: exact_ops_def split: option.splits)

lemma exact_ops_red [simp]:
  "f_mean exact_ops vs = (case all_reals vs of None \<Rightarrow> None
                | Some us \<Rightarrow> if us = [] then None else Some (mean_r us))"
  "f_std exact_ops vs = (case all_reals vs of None \<Rightarrow> None
                | Some us \<Rightarrow> if length us < 2 then None
                   else Some (sqrt (sum_list (map (\<lambda>u. (u - mean_r us)\<^sup>2) us) / real (length us - 1))))"
  "f_max exact_ops vs = (case all_reals vs of None \<Rightarrow> None
                | Some us \<Rightarrow> if us = [] then None else Some (fold max us (hd us)))"
  "f_min exact_ops vs = (case all_reals vs of None \<Rightarrow> None
                | Some us \<Rightarrow> if us = [] then None else Some (fold min us (hd us)))"
  by (simp_all add: exact_ops_def)

lemma exact_ops_trunc [simp]:
  "f_trunc exact_ops None = 0"
  "f_trunc exact_ops (Some u) = (if 0 \<le> u then \<lfloor>u\<rfloor> else \<lceil>u\<rceil>)"
  by (simp_all add: exact_ops_def)

lemma lift2_Some [simp]:
  "lift2 g (Some u) (Some v) = Some (g u v)"
  "lift2 g None b = None"
  "lift2 g a None = None"
  by (simp_all add: lift2_def split: option.splits)

lemma replicate_num: "replicate (numeral k) x = x # replicate (pred_numeral k) x"
  by (simp add: numeral_eq_Suc)

lemma list_update_num: "(x # xs)[numeral k := v] = x # xs[pred_numeral k := v]"
  by (simp add: numeral_eq_Suc)

lemma range_ts: "[Suc 0..<37] = [1, 2, 3, 4, 5, 6, 7, 8, 9, 10, 11, 12, 13, 14, 15, 16, 17, 18, 19, 20,
    21, 22, 23, 24, 25, 26, 27, 28, 29, 30, 31, 32, 33, 34, 35, 36]"
  by code_simp

lemma range_static: "[37..<45] = [37, 38, 39, 40, 41, 42, 43, 44]"
  by code_simp

lemma range_channels: "[0..<45] = [0, 1, 2, 3, 4, 5, 6, 7, 8, 9, 10, 11, 12, 13, 14, 15, 16, 17, 18, 19, 20,
    21, 22, 23, 24, 25, 26, 27, 28, 29, 30, 31, 32, 33, 34, 35, 36, 37, 38, 39, 40, 41, 42, 43, 44]"
  by code_simp

lemma range_bins: "[Suc 0..<3] = [1, 2]"
  by code_simp

lemmas eval_getitem = getitem_def record_obs_def record_ins_def record_time_def n_channels_def
  d_time_series_num_def d_static_num_def bin_of_def feat_step_def get_def py_index_def
  standardize_def Let_def replicate_num list_update_num range_ts range_static range_bins

lemmas eval_setup = dataset_setup_def n_channels_def channel_vals_def mean_r_def replicate_num
  range_channels

lemma cx_setup_train: "dataset_setup exact_ops cx_load Train 2 = Inr cx_train"
  by (simp add: cx_load_def cx_train_def cx_row_def cx_fill_def eval_setup)

lemma cx_setup_val: "dataset_setup exact_ops cx_load Val 2 = Inr cx_val"
  by (simp add: cx_load_def cx_val_def cx_row_def cx_fill_def eval_setup)

lemma cx_getitem_val:
  "getitem exact_ops cx_val 0 =
     Inr (([Some (- 1 / (1 + 1 / 10 ^ 7)) # replicate 35 (Some 0) @ Some 1 # replicate 35 (Some 0),
            Some (1 / (1 + 1 / 10 ^ 7)) # replicate 35 (Some 0) @ Some 2 # replicate 35 (Some 0)],
           replicate 8 (Some 0), [Some (1 / 1440), Some (1 / 720)]), 1)"
  by (simp add: cx_val_def cx_row_def cx_fill_def eval_getitem)

subsection \<open>The binner\<close>

lemma py_index_lt: "py_index n i = Inr b \<Longrightarrow> b < n"
  by (auto simp: py_index_def split: if_splits)

lemma feat_step_Inr:
  assumes "feat_step ops ms ss bin row x i = Inr x'"
  shows "(f_isnan ops (row ! i) \<and> x' = x) \<or>
         (\<not> f_isnan ops (row ! i) \<and> (\<exists>b0. py_index (length x) bin = Inr b0 \<and> b0 < length x \<and>
            x' = x[b0 := ((x ! b0)[i - 1 := standardize ops (row ! i) (ms ! i) (ss ! i)])
                          [i - 1 + 36 := f_add ops (x ! b0 ! (i - 1 + 36)) (f_const ops 1)]]))"
  using assms
  by (auto simp: feat_step_def Let_def get_def d_time_series_num_def
      split: sum.splits if_splits dest: py_index_lt)

lemma feat_step_shape:
  assumes "feat_step ops ms ss bin row x i = Inr x'"
  shows "length x' = length x" and "shape_ok x \<Longrightarrow> shape_ok x'"
  using feat_step_Inr [OF assms]
  by (auto simp: shape_ok_def list_all_length nth_list_update)

lemma feat_step_value:
  assumes "feat_step ops ms ss bin row x i = Inr x'" and "1 \<le> i" and "shape_ok x"
    and "b < length x" and "e < 36"
  shows "x' ! b ! e =
     (if i = e + 1 \<and> \<not> f_isnan ops (row ! i) \<and> py_index (length x) bin = Inr b
      then standardize ops (row ! i) (ms ! i) (ss ! i) else x ! b ! e)"
proof -
  have len: "length (x ! b) = 72"
    using assms(3,4) by (simp add: shape_ok_def list_all_length d_time_series_num_def)
  from feat_step_Inr [OF assms(1)] show ?thesis
  proof (elim disjE conjE exE)
    assume "f_isnan ops (row ! i)" "x' = x"
    then show ?thesis by simp
  next
    fix b0
    assume h: "\<not> f_isnan ops (row ! i)" "py_index (length x) bin = Inr b0" "b0 < length x"
      and x': "x' = x[b0 := ((x ! b0)[i - 1 := standardize ops (row ! i) (ms ! i) (ss ! i)])
                          [i - 1 + 36 := f_add ops (x ! b0 ! (i - 1 + 36)) (f_const ops 1)]]"
    show ?thesis
    proof (cases "b0 = b")
      case True
      with h x' len assms(2,4,5) show ?thesis
        by (auto simp: nth_list_update)
    next
      case False
      with h x' assms(4) show ?thesis by auto
    qed
  qed
qed

lemma feat_step_count:
  assumes "feat_step ops ms ss bin row x i = Inr x'" and "1 \<le> i" and "shape_ok x"
    and "b < length x" and "e < 36" and "i \<le> 36"
  shows "x' ! b ! (e + 36) =
     (if i = e + 1 \<and> \<not> f_isnan ops (row ! i) \<and> py_index (length x) bin = Inr b
      then f_add ops (x ! b ! (e + 36)) (f_const ops 1) else x ! b ! (e + 36))"
proof -
  have len: "length (x ! b) = 72"
    using assms(3,4) by (simp add: shape_ok_def list_all_length d_time_series_num_def)
  from feat_step_Inr [OF assms(1)] show ?thesis
  proof (elim disjE conjE exE)
    assume "f_isnan ops (row ! i)" "x' = x"
    then show ?thesis by simp
  next
    fix b0
    assume h: "\<not> f_isnan ops (row ! i)" "py_index (length x) bin = Inr b0" "b0 < length x"
      and x': "x' = x[b0 := ((x ! b0)[i - 1 := standardize ops (row ! i) (ms ! i) (ss ! i)])
                          [i - 1 + 36 := f_add ops (x ! b0 ! (i - 1 + 36)) (f_const ops 1)]]"
    show ?thesis
    proof (cases "b0 = b")
      case True
      with h x' len assms(2,4,5,6) show ?thesis
        by (auto simp: nth_list_update add.commute)
    next
      case False
      with h x' assms(4) show ?thesis by auto
    qed
  qed
qed

lemma feat_loop_shape:
  assumes "feat_loop ops ms ss bin row is x = Inr x'"
  shows "length x' = length x \<and> (shape_ok x \<longrightarrow> shape_ok x')"
  using assms
proof (induction "is" arbitrary: x)
  case Nil
  then show ?case by simp
next
  case (Cons i "is")
  then show ?case
    by (auto split: sum.splits dest: feat_step_shape)
qed

lemma feat_loop_value:
  assumes "feat_loop ops ms ss bin row is x = Inr x'" and "distinct is" and "\<forall>i \<in> set is. 1 \<le> i"
    and "shape_ok x" and "b < length x" and "e < 36"
  shows "x' ! b ! e =
     (if e + 1 \<in> set is \<and> \<not> f_isnan ops (row ! (e + 1)) \<and> py_index (length x) bin = Inr b
      then standardize ops (row ! (e + 1)) (ms ! (e + 1)) (ss ! (e + 1)) else x ! b ! e)"
  using assms
proof (induction "is" arbitrary: x)
  case Nil
  then show ?case by simp
next
  case (Cons i "is")
  from Cons.prems(1) obtain x1 where s: "feat_step ops ms ss bin row x i = Inr x1"
    and l: "feat_loop ops ms ss bin row is x1 = Inr x'"
    by (auto split: sum.splits)
  have sh: "length x1 = length x" "shape_ok x1"
    using feat_step_shape [OF s] Cons.prems(4) by auto
  have v1: "x1 ! b ! e =
     (if i = e + 1 \<and> \<not> f_isnan ops (row ! i) \<and> py_index (length x) bin = Inr b
      then standardize ops (row ! i) (ms ! i) (ss ! i) else x ! b ! e)"
    using feat_step_value [OF s _ Cons.prems(4,5,6)] Cons.prems(3) by simp
  have "x' ! b ! e =
     (if e + 1 \<in> set is \<and> \<not> f_isnan ops (row ! (e + 1)) \<and> py_index (length x1) bin = Inr b
      then standardize ops (row ! (e + 1)) (ms ! (e + 1)) (ss ! (e + 1)) else x1 ! b ! e)"
    using Cons.IH [OF l _ _ sh(2)] Cons.prems(2,3,5,6) sh(1) by simp
  with v1 sh(1) Cons.prems(2) show ?case by auto
qed

lemma feat_loop_count:
  assumes "feat_loop ops ms ss bin row is x = Inr x'" and "distinct is" and "\<forall>i \<in> set is. 1 \<le> i \<and> i \<le> 36"
    and "shape_ok x" and "b < length x" and "e < 36"
  shows "x' ! b ! (e + 36) =
     (if e + 1 \<in> set is \<and> \<not> f_isnan ops (row ! (e + 1)) \<and> py_index (length x) bin = Inr b
      then f_add ops (x ! b ! (e + 36)) (f_const ops 1) else x ! b ! (e + 36))"
  using assms
proof (induction "is" arbitrary: x)
  case Nil
  then show ?case by simp
next
  case (Cons i "is")
  from Cons.prems(1) obtain x1 where s: "feat_step ops ms ss bin row x i = Inr x1"
    and l: "feat_loop ops ms ss bin row is x1 = Inr x'"
    by (auto split: sum.splits)
  have sh: "length x1 = length x" "shape_ok x1"
    using feat_step_shape [OF s] Cons.prems(4) by auto
  have v1: "x1 ! b ! (e + 36) =
     (if i = e + 1 \<and> \<not> f_isnan ops (row ! i) \<and> py_index (length x) bin = Inr b
      then f_add ops (x ! b ! (e + 36)) (f_const ops 1) else x ! b ! (e + 36))"
    using feat_step_count [OF s _ Cons.prems(4,5,6)] Cons.prems(3) by simp
  have "x' ! b ! (e + 36) =
     (if e + 1 \<in> set is \<and> \<not> f_isnan ops (row ! (e + 1)) \<and> py_index (length x1) bin = Inr b
      then f_add ops (x1 ! b ! (e + 36)) (f_const ops 1) else x1 ! b ! (e + 36))"
    using Cons.IH [OF l _ _ sh(2)] Cons.prems(2,3,5,6) sh(1) by simp
  with v1 sh(1) Cons.prems(2) show ?case by auto
qed


lemma obs_loop_cells:
  assumes "obs_loop ops ms ss T t_last obs x = Inr x'" and "length x = T" and "shape_ok x"
    and "b < T" and "e < 36"
  shows "length x' = T \<and> shape_ok x'
     \<and> x' ! b ! e = (if cell_obs ops T t_last b e obs = [] then x ! b ! e
          else standardize ops (snd (last (cell_obs ops T t_last b e obs)) ! (e + 1)) (ms ! (e + 1)) (ss ! (e + 1)))
     \<and> x' ! b ! (e + 36) = (incr ops ^^ length (cell_obs ops T t_last b e obs)) (x ! b ! (e + 36))"
  using assms
proof (induction obs arbitrary: x)
  case Nil
  then show ?case by (simp add: cell_obs_def)
next
  case (Cons ob obs)
  obtain t row where ob: "ob = (t, row)" by (cases ob)
  from Cons.prems(1) ob obtain bin x1 where
    bin: "bin_of ops T t t_last = Inr bin"
    and fl: "feat_loop ops ms ss bin row [1..<37] x = Inr x1"
    and rest: "obs_loop ops ms ss T t_last obs x1 = Inr x'"
    by (auto split: sum.splits)
  have sh1: "length x1 = T" "shape_ok x1"
    using feat_loop_shape [OF fl] Cons.prems(2,3) by auto
  have mem: "e + 1 \<in> set [1..<37]"
    using Cons.prems(5) by simp
  have fi: "falls_in ops T t_last b e ob = (\<not> f_isnan ops (row ! (e + 1)) \<and> py_index T bin = Inr b)"
    using bin ob by (auto simp: falls_in_def)
  have v1: "x1 ! b ! e = (if falls_in ops T t_last b e ob
      then standardize ops (row ! (e + 1)) (ms ! (e + 1)) (ss ! (e + 1)) else x ! b ! e)"
    using feat_loop_value [OF fl _ _ Cons.prems(3), of b e] Cons.prems(2,4,5) mem fi by simp
  have c1: "x1 ! b ! (e + 36) = (if falls_in ops T t_last b e ob
      then incr ops (x ! b ! (e + 36)) else x ! b ! (e + 36))"
    using feat_loop_count [OF fl _ _ Cons.prems(3), of b e] Cons.prems(2,4,5) mem fi
    by (simp add: incr_def)
  note ih = Cons.IH [OF rest sh1 Cons.prems(4,5)]
  show ?case
  proof (cases "falls_in ops T t_last b e ob")
    case True
    then have "cell_obs ops T t_last b e (ob # obs) = ob # cell_obs ops T t_last b e obs"
      by (simp add: cell_obs_def)
    with ih v1 c1 True ob show ?thesis
      by (simp add: funpow_swap1)
  next
    case False
    then have "cell_obs ops T t_last b e (ob # obs) = cell_obs ops T t_last b e obs"
      by (simp add: cell_obs_def)
    with ih v1 c1 False show ?thesis by simp
  qed
qed

lemma shape_ok_zeros: "shape_ok (replicate T (replicate (d_time_series_num * 2) z))"
  by (simp add: shape_ok_def list_all_length)

lemma last_filter_last: "xs \<noteq> [] \<Longrightarrow> P (last xs) \<Longrightarrow> last (filter P xs) = last xs"
  by (induction xs rule: rev_induct) simp_all

lemma getitem_loop:
  assumes "getitem ops ds i = Inr ((x_ts, x_static, bin_ends), y)"
  shows "obs_loop ops (means ds) (stds ds) (n_timesteps ds)
           (last (record_time ops (record_ins ops (data_X ds ! i))))
           (record_obs ops (data_X ds ! i))
           (replicate (n_timesteps ds) (replicate (d_time_series_num * 2) (f_const ops 0))) = Inr x_ts"
    and "record_time ops (record_ins ops (data_X ds ! i)) \<noteq> []"
  using assms by (auto simp: getitem_def Let_def get_def split: sum.splits if_splits)

lemma last_record_obs:
  assumes "record_time ops (record_ins ops rec) \<noteq> []"
  shows "record_obs ops rec \<noteq> []"
    and "fst (last (record_obs ops rec)) = last (record_time ops (record_ins ops rec))"
    and "snd (last (record_obs ops rec)) = last (record_ins ops rec)"
proof -
  let ?ins = "record_ins ops rec"
  let ?time = "record_time ops ?ins"
  have l: "length ?time = length ?ins" by (simp add: record_time_def)
  with assms have ne: "?ins \<noteq> []" by auto
  show "record_obs ops rec \<noteq> []"
    using assms ne by (simp add: record_obs_def)
  have "last (zip ?time ?ins) = (last ?time, last ?ins)"
    using assms ne l by (simp add: last_zip)
  then show "fst (last (record_obs ops rec)) = last ?time"
    and "snd (last (record_obs ops rec)) = last ?ins"
    by (simp_all add: record_obs_def)
qed

text \<open>
  C5. For every record with at least one row and every bin count \<open>T\<close>, the bin computed
  for the last row is \<open>T - 1\<close>; and when \<^verbatim>\<open>__getitem__\<close> returns a result, each entry of
  that row that is not NaN is stored, standardized, in row \<open>T - 1\<close> of \<^verbatim>\<open>x_ts\<close>. This holds
  whatever the floating-point division, multiplication and truncation return: line 169
  tests \<^verbatim>\<open>t == time[-1]\<close> first. The last time stamp compares equal to itself, as every
  float other than NaN does (rows with a NaN time stamp are filtered out of \<^verbatim>\<open>ins\<close>).
\<close>

theorem last_observation_bin:
  assumes "time = record_time ops (record_ins ops (data_X ds ! i))"
    and "time \<noteq> []"
    and "f_eq ops (last time) (last time)"
  shows "record_bins ops T time ! (length time - 1) = Inr (int T - 1)
       \<and> (getitem ops ds i = Inr ((x_ts, x_static, bin_ends), y) \<and> 0 < n_timesteps ds
            \<and> e < 36 \<and> \<not> f_isnan ops (last (record_ins ops (data_X ds ! i)) ! (e + 1)) \<longrightarrow>
            x_ts ! (n_timesteps ds - 1) ! e =
              standardize ops (last (record_ins ops (data_X ds ! i)) ! (e + 1))
                (means ds ! (e + 1)) (stds ds ! (e + 1)))"
proof -
  let ?T = "n_timesteps ds"
  let ?rec = "data_X ds ! i"
  let ?obs = "record_obs ops ?rec"
  note lo = last_record_obs [of ops ?rec, folded assms(1), OF assms(2)]
  have b: "bin_of ops n (last time) (last time) = Inr (int n - 1)" for n
    using assms(3) by (simp add: bin_of_def)
  have a: "record_bins ops T time ! (length time - 1) = Inr (int T - 1)"
    using assms(2) b by (simp add: record_bins_def last_conv_nth)
  have c: "x_ts ! (?T - 1) ! e =
              standardize ops (last (record_ins ops ?rec) ! (e + 1)) (means ds ! (e + 1)) (stds ds ! (e + 1))"
    if g: "getitem ops ds i = Inr ((x_ts, x_static, bin_ends), y)" and pos: "0 < ?T"
      and e: "e < 36" and nn: "\<not> f_isnan ops (last (record_ins ops ?rec) ! (e + 1))"
  proof -
    let ?hits = "cell_obs ops ?T (last time) (?T - 1) e ?obs"
    note loop = getitem_loop(1) [OF g]
    have p: "py_index ?T (int ?T - 1) = Inr (?T - 1)"
      using pos by (simp add: py_index_def nat_diff_distrib')
    have f: "falls_in ops ?T (last time) (?T - 1) e (last ?obs)"
      using b p nn lo(2,3) by (simp add: falls_in_def)
    then have l: "last ?hits = last ?obs" and h: "?hits \<noteq> []"
      using lo(1) last_filter_last [of ?obs "falls_in ops ?T (last time) (?T - 1) e"]
      by (auto simp: cell_obs_def filter_empty_conv intro: last_in_set)
    have t: "?T - 1 < ?T" using pos by simp
    from obs_loop_cells [OF loop [folded assms(1)] _ shape_ok_zeros t e] h l lo(3)
    show ?thesis by simp
  qed
  from a c show ?thesis by blast
qed

lemma spec_getitem:
  "getitem exact_ops spec_ds 0 =
     Inr (([Some 0 # replicate 35 (Some 0) @ Some 2 # replicate 35 (Some 0),
            replicate 72 (Some 0), replicate 72 (Some 0),
            Some (1 / (1 + 1 / 10 ^ 7)) # replicate 35 (Some 0) @ Some 1 # replicate 35 (Some 0)],
           replicate 8 (Some 0),
           [Some (59999 / 5760000), Some (59999 / 2880000), Some (59999 / 1920000), Some (59999 / 1440000)]), 1)"
  by (simp add: spec_ds_def cx_row_def eval_getitem upt_conv_Cons)

theorem last_observation_bin_witness:
  "record_bins exact_ops 4 (record_time exact_ops [[Some 0], [Some 10], [Some (59999 / 1000)]])
      = [Inr 0, Inr 0, Inr 3]
   \<and> record_bins exact_ops (n_timesteps spec_ds)
        (record_time exact_ops (record_ins exact_ops (data_X spec_ds ! 0))) ! 2 = Inr 3
   \<and> x_ts_of (getitem exact_ops spec_ds 0) ! 3 ! 0
        = standardize exact_ops (Some 11) (means spec_ds ! 1) (stds spec_ds ! 1)"
proof -
  let ?time = "record_time exact_ops (record_ins exact_ops (data_X spec_ds ! 0))"
  have n: "0 < n_timesteps spec_ds" "n_timesteps spec_ds - 1 = 3" "int (n_timesteps spec_ds) - 1 = 3"
    by (simp_all add: spec_ds_def)
  have tm: "?time = [Some 0, Some (1 / 144), Some (59999 / 1440000)]"
    by (simp add: spec_ds_def cx_row_def record_ins_def record_time_def)
  have q: "f_eq exact_ops (last ?time) (last ?time)"
    unfolding tm by simp
  have la: "last (record_ins exact_ops (data_X spec_ds ! 0)) ! (0 + 1) = Some 11"
    by (simp add: spec_ds_def cx_row_def record_ins_def)
  have len: "length ?time - 1 = 2"
    unfolding tm by simp
  have ne: "?time \<noteq> []"
    unfolding tm by simp
  let ?X = "[Some 0 # replicate 35 (Some 0) @ Some 2 # replicate 35 (Some 0),
             replicate 72 (Some 0), replicate 72 (Some 0),
             Some (1 / (1 + 1 / 10 ^ 7)) # replicate 35 (Some 0) @ Some 1 # replicate 35 (Some 0)]"
  let ?S = "replicate 8 (Some 0) :: real option list"
  let ?B = "[Some (59999 / 5760000), Some (59999 / 2880000), Some (59999 / 1920000),
             Some (59999 / 1440000)] :: real option list"
  have g: "getitem exact_ops spec_ds 0 = Inr ((?X, ?S, ?B), 1)"
    by (rule spec_getitem)
  note t = last_observation_bin [OF refl ne q, where T = "n_timesteps spec_ds" and e = 0
      and x_ts = ?X and x_static = ?S and bin_ends = ?B and y = 1, unfolded la len n(2,3)]
  from t have a: "record_bins exact_ops (n_timesteps spec_ds) ?time ! 2 = Inr 3"
    by simp
  from t g n(1) have "?X ! 3 ! 0
        = standardize exact_ops (Some 11) (means spec_ds ! (0 + 1)) (stds spec_ds ! (0 + 1))"
    by simp
  then have b: "x_ts_of (getitem exact_ops spec_ds 0) ! 3 ! 0
        = standardize exact_ops (Some 11) (means spec_ds ! 1) (stds spec_ds ! 1)"
    by (simp add: x_ts_of_def g)
  have c: "record_bins exact_ops 4 (record_time exact_ops [[Some 0], [Some 10], [Some (59999 / 1000)]])
      = [Inr 0, Inr 0, Inr 3]"
    by (simp add: record_bins_def record_time_def bin_of_def)
  from a b c show ?thesis by simp
qed

text \<open>
  C10. When several rows of a record have an entry for the same event type \<open>e\<close> and fall
  into the same bin \<open>b\<close>, the value cell \<^verbatim>\<open>x_ts[b, e]\<close> that \<^verbatim>\<open>__getitem__\<close> returns is the
  standardized entry of the last of these rows in the order of the loop (each write
  replaces the one before, no mean is taken), and the count cell \<^verbatim>\<open>x_ts[b, e + 36]\<close> is
  the initial zero incremented once per such row.
\<close>

theorem same_bin_overwrite_and_count:
  assumes "getitem ops ds i = Inr ((x_ts, x_static, bin_ends), y)"
    and "b < n_timesteps ds" and "e < 36"
    and "hits = cell_obs ops (n_timesteps ds) (last (record_time ops (record_ins ops (data_X ds ! i)))) b e
                  (record_obs ops (data_X ds ! i))"
    and "hits \<noteq> []"
  shows "x_ts ! b ! e = standardize ops (snd (last hits) ! (e + 1)) (means ds ! (e + 1)) (stds ds ! (e + 1))
       \<and> x_ts ! b ! (e + 36) = (incr ops ^^ length hits) (f_const ops 0)"
proof -
  let ?T = "n_timesteps ds"
  let ?rec = "data_X ds ! i"
  let ?tl = "last (record_time ops (record_ins ops ?rec))"
  let ?x0 = "replicate ?T (replicate (d_time_series_num * 2) (f_const ops 0))"
  from assms(1) have loop: "obs_loop ops (means ds) (stds ds) ?T ?tl (record_obs ops ?rec) ?x0 = Inr x_ts"
    by (auto simp: getitem_def Let_def get_def split: sum.splits if_splits)
  have z: "?x0 ! b ! e = f_const ops 0" "?x0 ! b ! (e + 36) = f_const ops 0"
    using assms(2,3) by (simp_all add: d_time_series_num_def)
  from obs_loop_cells [OF loop _ shape_ok_zeros assms(2,3)] assms(4,5) z show ?thesis
    by simp
qed

lemma cx_val_hits:
  "cell_obs exact_ops 2 (last (record_time exact_ops (record_ins exact_ops (data_X cx_val ! 0)))) 1 0
      (record_obs exact_ops (data_X cx_val ! 0))
   = [(Some (1 / 1440), cx_row 1 10), (Some (1 / 720), cx_row 2 11)]"
  by (simp add: cell_obs_def falls_in_def cx_val_def cx_row_def cx_fill_def record_obs_def
      record_ins_def record_time_def bin_of_def py_index_def)

theorem same_bin_overwrite_and_count_witness:
  "length (cell_obs exact_ops 2 (last (record_time exact_ops (record_ins exact_ops (data_X cx_val ! 0)))) 1 0
      (record_obs exact_ops (data_X cx_val ! 0))) = 2
   \<and> x_ts_of (getitem exact_ops cx_val 0) ! 1 ! 0
       = standardize exact_ops (Some 11) (means cx_val ! 1) (stds cx_val ! 1)
   \<and> x_ts_of (getitem exact_ops cx_val 0) ! 1 ! 36 = Some 2"
proof -
  let ?hits = "cell_obs exact_ops (n_timesteps cx_val)
      (last (record_time exact_ops (record_ins exact_ops (data_X cx_val ! 0)))) 1 0
      (record_obs exact_ops (data_X cx_val ! 0))"
  let ?X = "[Some (- 1 / (1 + 1 / 10 ^ 7)) # replicate 35 (Some 0) @ Some 1 # replicate 35 (Some 0),
             Some (1 / (1 + 1 / 10 ^ 7)) # replicate 35 (Some 0) @ Some 2 # replicate 35 (Some 0)]"
  have n: "(1::nat) < n_timesteps cx_val" "n_timesteps cx_val = 2"
    by (simp_all add: cx_val_def)
  have hits: "?hits = [(Some (1 / 1440), cx_row 1 10), (Some (1 / 720), cx_row 2 11)]"
    unfolding n(2) by (rule cx_val_hits)
  have ne: "?hits \<noteq> []"
    unfolding hits by simp
  have xs: "x_ts_of (getitem exact_ops cx_val 0) = ?X"
    by (simp add: x_ts_of_def cx_getitem_val)
  have t: "?X ! 1 ! 0 = standardize exact_ops (snd (last ?hits) ! (0 + 1)) (means cx_val ! (0 + 1))
               (stds cx_val ! (0 + 1))
         \<and> ?X ! 1 ! (0 + 36) = (incr exact_ops ^^ length ?hits) (f_const exact_ops 0)"
    by (rule same_bin_overwrite_and_count [OF cx_getitem_val n(1) _ refl ne]) simp
  have l: "snd (last ?hits) ! (0 + 1) = Some 11" "length ?hits = 2"
    unfolding hits by (simp_all add: cx_row_def)
  have i: "(incr exact_ops ^^ 2) (f_const exact_ops 0) = Some 2"
    by (simp add: incr_def numeral_2_eq_2)
  from t show ?thesis
    unfolding xs l i using l(2) n(2) by simp
qed

lemma static_loop_bounds:
  assumes "static_loop ops ms ss ins is x = Inr x'" and "i \<in> set is"
  shows "i < length ms \<and> i < length ss"
  using assms
  by (induction "is" arbitrary: x) (auto simp: get_def split: sum.splits if_splits)

lemma static_loop_cells:
  assumes "static_loop ops ms ss ins is x = Inr x'" and "distinct is"
    and "\<forall>i \<in> set is. 37 \<le> i" and "j < length x"
  shows "length x' = length x
     \<and> x' ! j = (if 37 + j \<in> set is
          then f_nan_to_num ops (standardize ops (ins ! 0 ! (37 + j)) (ms ! (37 + j)) (ss ! (37 + j)))
          else x ! j)"
  using assms
proof (induction "is" arbitrary: x)
  case Nil
  then show ?case by simp
next
  case (Cons i "is")
  let ?v = "f_nan_to_num ops (standardize ops (ins ! 0 ! i) (ms ! i) (ss ! i))"
  from Cons.prems(1) have rest: "static_loop ops ms ss ins is (x[i - 37 := ?v]) = Inr x'"
    by (auto simp: get_def split: sum.splits if_splits)
  have i: "37 \<le> i" "i \<notin> set is"
    using Cons.prems(2,3) by simp_all
  from Cons.IH [OF rest] Cons.prems(2,3,4)
  have ih: "length x' = length x"
    "x' ! j = (if 37 + j \<in> set is
          then f_nan_to_num ops (standardize ops (ins ! 0 ! (37 + j)) (ms ! (37 + j)) (ss ! (37 + j)))
          else (x[i - 37 := ?v]) ! j)"
    by simp_all
  have eq: "(i - 37 = j) = (i = 37 + j)"
    using i(1) by auto
  show ?case
  proof (cases "i = 37 + j")
    case True
    with ih i(2) Cons.prems(4) show ?thesis by simp
  next
    case False
    with ih eq Cons.prems(4) show ?thesis by (simp add: nth_list_update)
  qed
qed

lemma getitem_static:
  assumes "getitem ops ds i = Inr ((x_ts, x_static, bin_ends), y)"
  shows "static_loop ops (means ds) (stds ds) (record_ins ops (data_X ds ! i)) [37..<45]
           (replicate d_static_num (f_const ops 0)) = Inr x_static"
  using assms by (auto simp: getitem_def Let_def get_def split: sum.splits if_splits)

lemma dataset_setup_fields:
  assumes "dataset_setup ops load sp T = Inr ds"
  shows "n_timesteps ds = T" and "data_X ds = split_X (load sp)"
    and "means ds = map (\<lambda>c. f_mean ops (channel_vals ops (split_X (load sp)) c))
                       [0..<split_channels (load sp)]"
    and "stds ds = map (\<lambda>c. f_std ops (channel_vals ops (split_X (load sp)) c))
                      [0..<split_channels (load sp)]"
  using assms by (auto simp: dataset_setup_def Let_def split: if_splits)

text \<open>
  A split without records: the loop of \<^verbatim>\<open>setup\<close> still runs over the 45 channels and the
  first \<^verbatim>\<open>max\<close> raises.
\<close>

lemma empty_split_raises: "dataset_setup exact_ops empty_load sp 2 = Inl RuntimeError"
  by (simp add: dataset_setup_def empty_load_def channel_vals_def range_channels)

text \<open>
  C1, as the code has it. Each data set computes its statistics in \<open>dataset_setup\<close> from
  the tensor of its own split: the validation data set from the validation split, not
  from the training split. For every record of the split that \<^verbatim>\<open>__getitem__\<close> returns a
  result for, every value cell of \<^verbatim>\<open>x_ts\<close> that has an observation and every static feature
  is standardized with the mean and the standard deviation of its channel over that same
  split (a value cell without an observation stays zero). The data set, and with it every
  output of \<^verbatim>\<open>__getitem__\<close>, is the same for two loaders that agree on that split, whatever
  their other splits hold. In exact arithmetic, a stored mean shifted by \<open>d\<close> shifts a
  standardized value by \<open>d / (std + 1e-7)\<close>.
\<close>

theorem statistics_of_own_split:
  assumes "dataset_setup ops load sp T = Inr ds" and "load' sp = load sp"
    and "getitem ops ds i = Inr ((x_ts, x_static, bin_ends), y)"
    and "X = split_X (load sp)"
    and "hits = cell_obs ops T (last (record_time ops (record_ins ops (X ! i)))) b e
                  (record_obs ops (X ! i))"
    and "b < T" and "e < 36" and "j < 8"
  shows "dataset_setup ops load' sp T = Inr ds
       \<and> means ds = map (\<lambda>c. f_mean ops (channel_vals ops X c)) [0..<split_channels (load sp)]
       \<and> stds ds = map (\<lambda>c. f_std ops (channel_vals ops X c)) [0..<split_channels (load sp)]
       \<and> x_ts ! b ! e =
           (if hits = [] then f_const ops 0
            else standardize ops (snd (last hits) ! (e + 1))
                   (f_mean ops (channel_vals ops X (e + 1))) (f_std ops (channel_vals ops X (e + 1))))
       \<and> x_static ! j =
           f_nan_to_num ops (standardize ops (record_ins ops (X ! i) ! 0 ! (37 + j))
              (f_mean ops (channel_vals ops X (37 + j))) (f_std ops (channel_vals ops X (37 + j))))
       \<and> f_sub exact_ops (standardize exact_ops (Some x) (Some m) (Some s))
                         (standardize exact_ops (Some x) (Some (m + d)) (Some s))
           = (if s + 1 / 10 ^ 7 = 0 then None else Some (d / (s + 1 / 10 ^ 7)))"
proof -
  let ?C = "split_channels (load sp)"
  note fs = dataset_setup_fields [OF assms(1), folded assms(4)]
  have a: "dataset_setup ops load' sp T = Inr ds"
    unfolding dataset_setup_def assms(2) by (rule assms(1) [unfolded dataset_setup_def])
  note st = getitem_static [OF assms(3)]
  have "44 < length (means ds)"
    using static_loop_bounds [OF st, of 44] by simp
  then have C: "45 \<le> ?C"
    by (simp add: fs(3))
  have mc: "means ds ! c = f_mean ops (channel_vals ops X c)"
    and sc: "stds ds ! c = f_std ops (channel_vals ops X c)" if "c < 45" for c
    using that C by (simp_all add: fs(3,4))
  note loop = getitem_loop(1) [OF assms(3), unfolded fs(1,2)]
  have z: "replicate T (replicate (d_time_series_num * 2) (f_const ops 0)) ! b ! e = f_const ops 0"
    using assms(6,7) by (simp add: d_time_series_num_def)
  from obs_loop_cells [OF loop _ shape_ok_zeros assms(6,7)] z
  have v: "x_ts ! b ! e =
           (if hits = [] then f_const ops 0
            else standardize ops (snd (last hits) ! (e + 1)) (means ds ! (e + 1)) (stds ds ! (e + 1)))"
    by (simp add: assms(5))
  have e1: "e + 1 < 45" using assms(7) by simp
  have j1: "37 + j < 45" using assms(8) by simp
  have "37 + j \<in> {37..<45}" using assms(8) by simp
  then have j2: "37 + j \<in> set [37..<45]" by (simp only: set_upt)
  have "\<forall>c \<in> {37..<45::nat}. 37 \<le> c" by auto
  then have dr: "distinct [37..<45]" "\<forall>c \<in> set [37..<45]. 37 \<le> c"
    by (simp_all only: distinct_upt set_upt)
  have lj: "j < length (replicate d_static_num (f_const ops 0))"
    using assms(8) by (simp add: d_static_num_def)
  from static_loop_cells [OF st dr lj, THEN conjunct2]
  have w: "x_static ! j =
           f_nan_to_num ops (standardize ops (record_ins ops (X ! i) ! 0 ! (37 + j))
              (means ds ! (37 + j)) (stds ds ! (37 + j)))"
    by (simp only: j2 if_True fs(2))
  have sh: "f_sub exact_ops (standardize exact_ops (Some x) (Some m) (Some s))
                         (standardize exact_ops (Some x) (Some (m + d)) (Some s))
           = (if s + 1 / 10 ^ 7 = 0 then None else Some (d / (s + 1 / 10 ^ 7)))"
    by (simp add: standardize_def diff_divide_distrib [symmetric])
  note v' = v [unfolded mc [OF e1] sc [OF e1]]
  note w' = w [unfolded mc [OF j1] sc [OF j1]]
  show ?thesis
    apply (intro conjI)
         apply (rule a)
        apply (rule fs(3))
       apply (rule fs(4))
      apply (rule v')
     apply (rule w')
    apply (rule sh)
    done
qed

lemma cx_val_channel_vals:
  "channel_vals exact_ops (split_X (cx_load Val)) (Suc 0) = [Some 9, Some 10, Some 11]"
  by (simp add: channel_vals_def cx_load_def cx_row_def cx_fill_def replicate_num)

theorem statistics_of_own_split_witness:
  "cx_load' Val = cx_load Val \<and> cx_load' Train \<noteq> cx_load Train
   \<and> dataset_setup exact_ops cx_load' Val 2 = Inr cx_val
   \<and> x_ts_of (getitem exact_ops cx_val 0) ! 1 ! 0
       = standardize exact_ops (Some 11) (f_mean exact_ops [Some 9, Some 10, Some 11])
           (f_std exact_ops [Some 9, Some 10, Some 11])
   \<and> x_ts_of (getitem exact_ops cx_val 0) ! 1 ! 0 = Some (1 / (1 + 1 / 10 ^ 7))
   \<and> f_sub exact_ops (standardize exact_ops (Some 11) (Some 10) (Some 1))
                     (standardize exact_ops (Some 11) (Some (10 + 3)) (Some 1))
       = Some (3 / (1 + 1 / 10 ^ 7))"
proof -
  let ?X = "split_X (cx_load Val)"
  let ?hits = "cell_obs exact_ops 2 (last (record_time exact_ops (record_ins exact_ops (?X ! 0)))) 1 0
      (record_obs exact_ops (?X ! 0))"
  have e: "cx_load' Val = cx_load Val"
    by (simp add: cx_load_def cx_load'_def)
  have n: "cx_load' Train \<noteq> cx_load Train"
    by (simp add: cx_load_def cx_load'_def cx_row_def)
  have X: "?X = data_X cx_val"
    by (simp add: cx_load_def cx_val_def)
  have hits: "?hits = [(Some (1 / 1440), cx_row 1 10), (Some (1 / 720), cx_row 2 11)]"
    unfolding X by (rule cx_val_hits)
  have l: "?hits \<noteq> []" "snd (last ?hits) ! (0 + 1) = Some 11"
    unfolding hits by (simp_all add: cx_row_def)
  note t = statistics_of_own_split [where ops = exact_ops and load = cx_load and load' = cx_load'
      and sp = Val and T = 2 and ds = cx_val and i = 0 and b = 1 and e = 0 and j = 0
      and x = 11 and m = 10 and s = 1 and d = 3, OF cx_setup_val e cx_getitem_val refl refl]
  have g: "x_ts_of (getitem exact_ops cx_val 0) ! 1 ! 0 = Some (1 / (1 + 1 / 10 ^ 7))"
    by (simp add: x_ts_of_def cx_getitem_val)
  from t l have "x_ts_of (getitem exact_ops cx_val 0) ! 1 ! 0
       = standardize exact_ops (Some 11) (f_mean exact_ops (channel_vals exact_ops ?X (0 + 1)))
           (f_std exact_ops (channel_vals exact_ops ?X (0 + 1)))"
    unfolding g by (simp del: exact_ops_red)
  then have v: "x_ts_of (getitem exact_ops cx_val 0) ! 1 ! 0
       = standardize exact_ops (Some 11) (f_mean exact_ops [Some 9, Some 10, Some 11])
           (f_std exact_ops [Some 9, Some 10, Some 11])"
    by (simp add: cx_val_channel_vals del: exact_ops_red)
  from t have a: "dataset_setup exact_ops cx_load' Val 2 = Inr cx_val"
    by simp
  from t have sh: "f_sub exact_ops (standardize exact_ops (Some 11) (Some 10) (Some 1))
                     (standardize exact_ops (Some 11) (Some (10 + 3)) (Some 1))
       = Some (3 / (1 + 1 / 10 ^ 7))"
    by simp
  from e n a v g sh show ?thesis
    by (simp only: simp_thms)
qed

text \<open>
  The validation record standardized with the statistics of the training split would
  hold another value than the one \<^verbatim>\<open>__getitem__\<close> returns.
\<close>

theorem training_statistics_counterexample:
  "dataset_setup exact_ops cx_load Train 2 = Inr cx_train
   \<and> dataset_setup exact_ops cx_load Val 2 = Inr cx_val
   \<and> means cx_train ! 1 = Some 0 \<and> means cx_val ! 1 = Some 10
   \<and> x_ts_of (getitem exact_ops cx_val 0) ! 1 ! 0 = Some (1 / (1 + 1 / 10 ^ 7))
   \<and> standardize exact_ops (Some 11) (means cx_train ! 1) (stds cx_train ! 1)
       = Some (11 / (1 + 1 / 10 ^ 7))
   \<and> x_ts_of (getitem exact_ops cx_val 0) ! 1 ! 0
       \<noteq> standardize exact_ops (Some 11) (means cx_train ! 1) (stds cx_train ! 1)"
proof -
  have a: "standardize exact_ops (Some 11) (means cx_train ! 1) (stds cx_train ! 1)
             = Some (11 / (1 + 1 / 10 ^ 7))"
    by (simp add: standardize_def cx_train_def)
  have b: "x_ts_of (getitem exact_ops cx_val 0) ! 1 ! 0 = Some (1 / (1 + 1 / 10 ^ 7))"
    by (simp add: x_ts_of_def cx_getitem_val)
  have c: "means cx_train ! 1 = Some 0" "means cx_val ! 1 = Some 10"
    by (simp_all add: cx_train_def cx_val_def)
  from a b c cx_setup_train cx_setup_val show ?thesis
    by simp
qed

subsection \<open>Loading a checkpoint\<close>

text \<open>
  C6. The checkpoint \<open>lc_checkpoint\<close> has a head parameter of another shape than the
  model's, an encoder parameter of the same shape, and a parameter that the model does
  not have. \<^verbatim>\<open>on_load_checkpoint\<close> keeps the model's head tensor, leaves the encoder tensor
  of the checkpoint as it is, removes the optimizer states and reports the head and the
  entry that the model lacks. That entry is reported as dropped, and it is still in the
  state dict when the function returns: lines 940 to 942 print and set the flag only.
\<close>

theorem dropped_entry_stays_in_state_dict:
  "on_load_checkpoint lc_model lc_checkpoint =
     (\<lparr> state_dict =
          [(''head.0.weight'', \<lparr> shape = [1, 64], payload = ''fresh head'' \<rparr>),
           (''tab_encoder.0.weight'', \<lparr> shape = [128, 8], payload = ''saved encoder'' \<rparr>),
           (''pretrain_value_proj.0.weight'', \<lparr> shape = [36, 888], payload = ''saved projection'' \<rparr>)],
        optimizer_states = None \<rparr>,
      lc_model,
      [Loading_from_checkpoint,
       Skip_loading ''head.0.weight'' [1, 64] [36, 64],
       Dropping ''pretrain_value_proj.0.weight''])"
  by (simp add: on_load_checkpoint_def lc_model_def lc_checkpoint_def add_missing_step_def
      check_step_def dict_set_def)

subsection \<open>Constructing the model\<close>

lemma encoder_list_result:
  assumes "encoder_kwargs hp dff d = Inr args"
  shows "encoder_list enc hp dff d n =
     (if n = 0 then Inr []
      else (case enc args of Inl err \<Rightarrow> Inl err | Inr t \<Rightarrow> Inr (replicate n t)))"
  using assms by (induction n) (auto split: sum.splits)

lemma encoder_kwargs_Inr:
  assumes "hp_n_transformer_head hp \<noteq> 0" and "d \<noteq> 0"
  shows "encoder_kwargs hp dff d =
     Inr \<lparr> dim = d, depth = 1, heads = hp_n_transformer_head hp, pre_norm = hp_norm_first hp,
           use_scalenorm = hp_scalenorm hp,
           attn_dim_head = hp_d_embedding hp div hp_n_transformer_head hp, ff_glu = hp_glu hp,
           ff_mult = real_of_int dff / real_of_int d, attn_dropout = hp_transformer_dropout hp,
           ff_dropout = hp_transformer_dropout hp \<rparr>"
  using assms by (simp add: encoder_kwargs_def py_floordiv_def py_truediv_def)

text \<open>
  C8, as the code has it. \<^verbatim>\<open>Model.__init__\<close> makes no divisibility check. For a head count
  other than zero and widths other than zero it passes to every encoder constructor the
  arguments \<open>kwargs\<close> with \<^verbatim>\<open>attn_dim_head = d_embedding // n_transformer_head\<close>, the
  quotient rounded down. The construction returns the model when the constructor accepts
  these arguments, and raises what the constructor raises when it does not; with no layer
  the constructor is not called.
\<close>

theorem construction_floors_head_width:
  assumes "hp_n_transformer_head hp \<noteq> 0"
    and "et_dim = hp_d_embedding hp * (hp_masked_transform_timesteps hp + 1)" and "et_dim \<noteq> 0"
    and "tt_dim = hp_d_embedding hp * (hp_d_time_series_num hp + 1)" and "tt_dim \<noteq> 0"
    and "d_ff = (case hp_d_feedforward hp of None \<Rightarrow> hp_d_embedding hp * 4 | Some v \<Rightarrow> v)"
    and "kwargs = (\<lambda>d. \<lparr> dim = d, depth = 1, heads = hp_n_transformer_head hp,
           pre_norm = hp_norm_first hp, use_scalenorm = hp_scalenorm hp,
           attn_dim_head = hp_d_embedding hp div hp_n_transformer_head hp, ff_glu = hp_glu hp,
           ff_mult = real_of_int d_ff / real_of_int d, attn_dropout = hp_transformer_dropout hp,
           ff_dropout = hp_transformer_dropout hp \<rparr>)"
  shows "model_init enc hp =
     (if hp_n_duett_layers hp = 0 then Inr \<lparr> event_transformers = [], time_transformers = [] \<rparr>
      else (case enc (kwargs et_dim) of Inl err \<Rightarrow> Inl err
            | Inr t1 \<Rightarrow>
           (case enc (kwargs tt_dim) of Inl err \<Rightarrow> Inl err
            | Inr t2 \<Rightarrow>
              Inr \<lparr> event_transformers = replicate (hp_n_duett_layers hp) t1,
                    time_transformers = replicate (hp_n_duett_layers hp) t2 \<rparr>)))"
proof -
  have e: "encoder_kwargs hp d_ff et_dim = Inr (kwargs et_dim)"
    using encoder_kwargs_Inr [OF assms(1,3), of d_ff] by (simp add: assms(7))
  have t: "encoder_kwargs hp d_ff tt_dim = Inr (kwargs tt_dim)"
    using encoder_kwargs_Inr [OF assms(1,5), of d_ff] by (simp add: assms(7))
  have "model_init enc hp =
     (case encoder_list enc hp d_ff et_dim (hp_n_duett_layers hp) of Inl err \<Rightarrow> Inl err
      | Inr ets \<Rightarrow>
     (case encoder_list enc hp d_ff tt_dim (hp_n_duett_layers hp) of Inl err \<Rightarrow> Inl err
      | Inr tts \<Rightarrow> Inr \<lparr> event_transformers = ets, time_transformers = tts \<rparr>))"
    unfolding model_init_def Let_def assms(2,4,6) by (rule refl)
  then show ?thesis
    by (simp add: encoder_list_result [OF e] encoder_list_result [OF t] split: sum.splits)
qed

theorem construction_floors_head_width_witness:
  "hp_n_transformer_head (default_hp 5) \<noteq> 0
   \<and> model_init needs_head_width (default_hp 5) =
       Inr \<lparr> event_transformers = replicate 2
               \<lparr> dim = 792, depth = 1, heads = 5, pre_norm = True, use_scalenorm = True,
                 attn_dim_head = 4, ff_glu = False, ff_mult = 512 / 792, attn_dropout = 0,
                 ff_dropout = 0 \<rparr>,
             time_transformers = replicate 2
               \<lparr> dim = 888, depth = 1, heads = 5, pre_norm = True, use_scalenorm = True,
                 attn_dim_head = 4, ff_glu = False, ff_mult = 512 / 888, attn_dropout = 0,
                 ff_dropout = 0 \<rparr> \<rparr>
   \<and> model_init needs_head_width (default_hp 25) = Inl ValueError"
  using construction_floors_head_width [of "default_hp 5" _ _ _ _ needs_head_width,
      OF _ refl _ refl _ refl refl]
    construction_floors_head_width [of "default_hp 25" _ _ _ _ needs_head_width,
      OF _ refl _ refl _ refl refl]
  by (simp add: default_hp_def needs_head_width_def)

text \<open>
  With the default width 24 and 5 heads, 5 does not divide 24 and the construction
  returns a model whose encoders have heads of width 4.
\<close>

theorem non_divisible_heads_counterexample:
  "\<not> hp_n_transformer_head (default_hp 5) dvd hp_d_embedding (default_hp 5)
   \<and> model_init accept (default_hp 5) =
       Inr \<lparr> event_transformers = replicate 2
               \<lparr> dim = 792, depth = 1, heads = 5, pre_norm = True, use_scalenorm = True,
                 attn_dim_head = 4, ff_glu = False, ff_mult = 512 / 792, attn_dropout = 0,
                 ff_dropout = 0 \<rparr>,
             time_transformers = replicate 2
               \<lparr> dim = 888, depth = 1, heads = 5, pre_norm = True, use_scalenorm = True,
                 attn_dim_head = 4, ff_glu = False, ff_mult = 512 / 888, attn_dropout = 0,
                 ff_dropout = 0 \<rparr> \<rparr>"
  by (simp add: model_init_def default_hp_def accept_def encoder_kwargs_def py_floordiv_def
      py_truediv_def numeral_2_eq_2)

subsection \<open>The masking policy\<close>

lemma rng_choice_length: "length (fst (rng_choice g n k)) = k"
  by (induction k arbitrary: g) (simp_all add: split_beta)

lemma rng_choice_range: "0 < n \<Longrightarrow> i \<in> set (fst (rng_choice g n k)) \<Longrightarrow> i < n"
  by (induction k arbitrary: g) (auto simp: split_beta rng_integers_def)

text \<open>
  C3, as the code has it. For a record with \<open>n < 2\<close> real bins the policy selects the
  single index \<open>n\<close>, the first position after the real bins of the record, and does not
  consult the generator; when the batch is padded beyond \<open>n\<close> the target is read from
  that padding row and that row is flagged in the clipped tensor.
\<close>

theorem short_record_masks_first_padding_bin:
  assumes "n < 2" and "n < length rows"
  shows "choose_mask g steps n = (Index n, g)
       \<and> selected (fst (choose_mask g steps n)) = [n]
       \<and> apply_mask ops n_vars (fst (choose_mask g steps n)) rows clipped =
           Inr ([take n_vars (rows ! n)], [take n_vars (drop n_vars (rows ! n))],
                clipped[n := masked_row ops (length (clipped ! n))])"
  using assms by (simp add: choose_mask_def apply_mask_def)

theorem short_record_masks_first_padding_bin_witness:
  "(1::nat) < 2 \<and> choose_mask rng_count 1 1 = (Index 1, rng_count)
   \<and> apply_mask exact_ops 1 (fst (choose_mask rng_count 1 1))
        [[Some 4, Some 1, Some 0], [Some 0, Some 0, Some 0]]
        [[Some 4, Some 1, Some 0], [Some 0, Some 0, Some 0]]
      = Inr ([[Some 0]], [[Some 0]], [[Some 4, Some 1, Some 0], [Some 0, Some 0, Some 1]])"
  using short_record_masks_first_padding_bin [of 1 "[[Some 4, Some 1, Some 0], [Some 0, Some 0, Some 0]]"
      rng_count 1 exact_ops 1 "[[Some 4, Some 1, Some 0], [Some 0, Some 0, Some 0]]"]
  by (auto simp: masked_row_def numeral_3_eq_3)

text \<open>
  A record with one real bin in a batch padded to two bins: bin 0, the real one, is not
  selected and stays as it is; bin 1, the padding, is selected and flagged. In a batch
  that is not padded beyond the record the index is out of range.
\<close>

theorem short_record_counterexample:
  "selected (fst (choose_mask rng_count 1 1)) = [1]
   \<and> 0 \<notin> set (selected (fst (choose_mask rng_count 1 1)))
   \<and> apply_mask exact_ops 1 (fst (choose_mask rng_count 1 1))
        [[Some 4, Some 1, Some 0], [Some 0, Some 0, Some 0]]
        [[Some 4, Some 1, Some 0], [Some 0, Some 0, Some 0]]
      = Inr ([[Some 0]], [[Some 0]], [[Some 4, Some 1, Some 0], [Some 0, Some 0, Some 1]])
   \<and> apply_mask exact_ops 1 (fst (choose_mask rng_count 1 1))
        [[Some 4, Some 1, Some 0]] [[Some 4, Some 1, Some 0]] = Inl IndexError"
  by (simp add: choose_mask_def apply_mask_def masked_row_def numeral_3_eq_3)

text \<open>
  C4, as the code has it. In multi-step mode (\<open>steps > 1\<close>) and for a record with
  \<open>n \<ge> 2\<close> real bins: when \<open>n < steps\<close> all \<open>n\<close> real bins are selected; otherwise the
  selection is the result of \<open>steps\<close> draws from \<open>0 .. n-1\<close> made with replacement, so it
  has \<open>steps\<close> entries, each a real bin, and entries may repeat.
\<close>

theorem multi_step_mask_with_replacement:
  assumes "1 < steps" and "2 \<le> n"
  shows "selected (fst (choose_mask g steps n)) =
           (if int n < steps then [0..<n] else fst (rng_choice g n (nat steps)))
       \<and> (steps \<le> int n \<longrightarrow> length (selected (fst (choose_mask g steps n))) = nat steps)
       \<and> list_all (\<lambda>i. i < n) (selected (fst (choose_mask g steps n)))"
proof -
  have s: "selected (fst (choose_mask g steps n)) =
           (if int n < steps then [0..<n] else fst (rng_choice g n (nat steps)))"
    using assms by (simp add: choose_mask_def split_beta)
  have "list_all (\<lambda>i. i < n) (fst (rng_choice g n (nat steps)))"
    using assms(2) rng_choice_range [of n _ g "nat steps"] by (simp add: list_all_iff)
  with s show ?thesis
    by (simp add: rng_choice_length list_all_iff)
qed

theorem multi_step_mask_with_replacement_witness:
  "(1::int) < 2 \<and> (2::nat) \<le> 3
   \<and> selected (fst (choose_mask rng_count 2 3)) = [0, 1]
   \<and> selected (fst (choose_mask rng_count 5 3)) = [0, 1, 2]"
  using multi_step_mask_with_replacement [of 2 3 rng_count]
    multi_step_mask_with_replacement [of 5 3 rng_count]
  by (simp add: rng_count_def rng_integers_def numeral_2_eq_2 upt_conv_Cons)

text \<open>
  A generator whose raw draws are all 5 gives bin 2 twice for three real bins and two
  steps. For one real bin and two steps the selection is the index 1, not bin 0.
\<close>

theorem multi_step_distinct_counterexample:
  "selected (fst (choose_mask rng_fives 2 3)) = [2, 2]
   \<and> \<not> distinct (selected (fst (choose_mask rng_fives 2 3)))
   \<and> selected (fst (choose_mask rng_fives 2 1)) = [1]"
  by (simp add: choose_mask_def rng_fives_def rng_integers_def numeral_2_eq_2)

subsection \<open>The embedding step and the forward pass\<close>

lemma length_embed_counts_row [simp]: "length (embed_counts_row ops m row) = length row"
  by (simp add: embed_counts_row_def Let_def)

lemma embed_counts_row_nth:
  assumes "c < length row"
  shows "embed_counts_row ops m row ! c =
     (if length row div 2 \<le> c \<and> c < 2 * (length row div 2) then count_embed ops m (row ! c)
      else row ! c)"
proof -
  define V where "V = length row div 2"
  define A where "A = take V row"
  define M where "M = map (count_embed ops m) (take V (drop V row))"
  define D where "D = drop (2 * V) row"
  have v: "2 * V \<le> length row" by (simp add: V_def)
  have lA: "length A = V" and lM: "length M = V"
    using v by (simp_all add: A_def M_def)
  have r: "embed_counts_row ops m row = A @ M @ D"
    by (simp add: embed_counts_row_def Let_def V_def A_def M_def D_def)
  consider "c < V" | "V \<le> c" "c < 2 * V" | "2 * V \<le> c" by linarith
  then have "(A @ M @ D) ! c = (if V \<le> c \<and> c < 2 * V then count_embed ops m (row ! c) else row ! c)"
  proof cases
    case 1
    then have "A ! c = row ! c" by (simp add: A_def)
    with 1 show ?thesis by (simp add: nth_append lA)
  next
    case 2
    then have k: "c - V < V" "V + (c - V) = c" by simp_all
    then have "M ! (c - V) = count_embed ops m (row ! c)"
      using v by (simp add: M_def)
    with 2 k show ?thesis
      by (simp add: nth_append lA lM)
  next
    case 3
    then have n: "\<not> c < V" "\<not> c - V < V" by linarith+
    have "2 * V + (c - V - V) = c" using 3 by simp
    then have "D ! (c - V - V) = row ! c"
      using assms v by (simp add: D_def)
    with 3 n show ?thesis
      by (simp add: nth_append lA lM)
  qed
  then show ?thesis by (simp add: r V_def)
qed

lemma n_bins_embed_counts [simp]: "n_bins (embed_counts ops m xs) = n_bins xs"
  by (simp add: n_bins_def embed_counts_def split: list.splits)

lemma n_channels_embed_counts [simp]: "n_channels (embed_counts ops m xs) = n_channels xs"
  by (simp add: n_channels_def embed_counts_def split: list.splits)

lemma embed_counts_nth:
  assumes "b < length xs" and "t < length (xs ! b)"
  shows "embed_counts ops m xs ! b ! t = embed_counts_row ops m (xs ! b ! t)"
  using assms by (simp add: embed_counts_def)

lemma embed_step_Inr:
  assumes "embed_step ops m xs_static xs_feats = Inr (psi, xs_feats')"
  shows "xs_feats' = embed_counts ops m xs_feats"
    and "mask_inds ops xs_feats' b t \<Longrightarrow> psi b t v = special_embeddings m MASKED_EMBEDDING_KEY"
  using assms by (auto simp: embed_step_def Let_def split: if_splits)


text \<open>
  C2. In a batch of shape (batch, bins, 2 * n_vars + 1), every cell of a bin whose flag,
  the last channel, equals one holds the vector \<^verbatim>\<open>special_embeddings(MASKED_EMBEDDING_KEY)\<close>
  after the embedding step: the same looked-up vector for every masked bin, every column
  \<open>v\<close> and every record, whatever values and counts the bin held.
\<close>

theorem masked_rows_hold_mask_embedding:
  assumes "embed_step ops m xs_static xs_feats = Inr (psi, xs_feats')"
    and "rectangular xs_feats" and "odd (n_channels xs_feats)"
    and "b < length xs_feats" and "t < n_bins xs_feats"
    and "f_eq ops (xs_feats ! b ! t ! (n_channels xs_feats - 1)) (f_const ops 1)"
  shows "psi b t v = special_embeddings m MASKED_EMBEDDING_KEY"
proof -
  let ?C = "n_channels xs_feats"
  have lb: "length (xs_feats ! b) = n_bins xs_feats"
    using assms(2,4) by (simp add: rectangular_def list_all_length)
  then have lr: "length (xs_feats ! b ! t) = ?C"
    using assms(2,4,5) by (simp add: rectangular_def list_all_length)
  have x': "xs_feats' = embed_counts ops m xs_feats"
    by (rule embed_step_Inr(1) [OF assms(1)])
  have c: "?C - 1 < ?C" "\<not> ?C - 1 < 2 * (?C div 2)"
    using assms(3) by (auto elim: oddE)
  have "xs_feats' ! b ! t ! (?C - 1) = xs_feats ! b ! t ! (?C - 1)"
    using embed_counts_row_nth [of "?C - 1" "xs_feats ! b ! t" ops m] c lr lb assms(4,5)
    by (simp add: x' embed_counts_nth)
  then have "mask_inds ops xs_feats' b t"
    using assms(5,6) by (simp add: mask_inds_def x')
  then show ?thesis
    by (rule embed_step_Inr(2) [OF assms(1)])
qed

lemma ex_embed_step:
  "\<exists>psi. embed_step exact_ops ex_embedder (fst ex_batch) (fst (snd ex_batch)) =
     Inr (psi, [[[Some 4, Some (1 / 2), Some 0], [Some 0, Some 0, Some 1]]])"
  by (simp add: embed_step_def ex_embedder_def ex_batch_def n_channels_def n_bins_def Let_def
      embed_counts_def embed_counts_row_def count_embed_def)

theorem masked_rows_hold_mask_embedding_witness:
  "\<exists>psi xs'. embed_step exact_ops ex_embedder (fst ex_batch) (fst (snd ex_batch)) = Inr (psi, xs')
     \<and> fst (snd ex_batch) ! 0 ! 1 ! 2 = Some 1
     \<and> psi 0 1 0 = [Some 100] \<and> psi 0 1 1 = [Some 100]"
proof -
  from ex_embed_step obtain psi xs' where
    e: "embed_step exact_ops ex_embedder (fst ex_batch) (fst (snd ex_batch)) = Inr (psi, xs')"
    by blast
  have r: "rectangular (fst (snd ex_batch))" "odd (n_channels (fst (snd ex_batch)))"
    "0 < length (fst (snd ex_batch))" "1 < n_bins (fst (snd ex_batch))"
    "f_eq exact_ops (fst (snd ex_batch) ! 0 ! 1 ! (n_channels (fst (snd ex_batch)) - 1))
        (f_const exact_ops 1)"
    by (simp_all add: rectangular_def ex_batch_def n_bins_def n_channels_def)
  have "psi 0 1 v = special_embeddings ex_embedder MASKED_EMBEDDING_KEY" for v
    by (rule masked_rows_hold_mask_embedding [OF e r])
  then have "psi 0 1 0 = [Some 100]" "psi 0 1 1 = [Some 100]"
    by (simp_all add: ex_embedder_def MASKED_EMBEDDING_KEY_def)
  with e show ?thesis
    by (auto simp: ex_batch_def)
qed

text \<open>
  C7, as the code has it. In every mode \<^verbatim>\<open>Model.forward\<close> leaves the static features, the
  bin times and the lengths unchanged, and in the time-series tensor the shape, the value
  columns and the columns from \<open>2 * n_vars\<close> on (the flag); it overwrites each count
  column \<open>n_vars \<le> c < 2 * n_vars\<close> in place with the count embedding of the entry.
\<close>

theorem forward_overwrites_count_columns:
  assumes "forward ops m stack_and_heads mode (xs_static, xs_feats, xs_times, lens)
             = Inr (out, (xs_static', xs_feats', xs_times', lens'))"
    and "b < length xs_feats" and "t < length (xs_feats ! b)" and "c < length (xs_feats ! b ! t)"
  shows "xs_static' = xs_static \<and> xs_times' = xs_times \<and> lens' = lens
       \<and> length xs_feats' = length xs_feats
       \<and> length (xs_feats' ! b) = length (xs_feats ! b)
       \<and> length (xs_feats' ! b ! t) = length (xs_feats ! b ! t)
       \<and> xs_feats' ! b ! t ! c =
           (if length (xs_feats ! b ! t) div 2 \<le> c \<and> c < 2 * (length (xs_feats ! b ! t) div 2)
            then count_embed ops m (xs_feats ! b ! t ! c) else xs_feats ! b ! t ! c)"
proof -
  from assms(1) obtain psi where
    e: "embed_step ops m xs_static xs_feats = Inr (psi, xs_feats')"
    and f: "xs_static' = xs_static" "xs_times' = xs_times" "lens' = lens"
    by (auto simp: forward_def split: sum.splits)
  have x': "xs_feats' = embed_counts ops m xs_feats"
    by (rule embed_step_Inr(1) [OF e])
  have l: "length xs_feats' = length xs_feats" "length (xs_feats' ! b) = length (xs_feats ! b)"
    using assms(2) by (simp_all add: x' embed_counts_def)
  have r: "xs_feats' ! b ! t = embed_counts_row ops m (xs_feats ! b ! t)"
    using assms(2,3) by (simp add: x' embed_counts_nth)
  from f l r embed_counts_row_nth [OF assms(4), of ops m] show ?thesis
    by simp
qed

theorem forward_overwrites_count_columns_witness:
  "\<exists>out xs'. forward exact_ops ex_embedder mode_only Supervised ex_batch
       = Inr (out, (fst ex_batch, xs', fst (snd (snd ex_batch)), snd (snd (snd ex_batch))))
     \<and> xs' ! 0 ! 0 ! 1 = count_embed exact_ops ex_embedder (Some 1)
     \<and> xs' ! 0 ! 0 ! 0 = Some 4 \<and> xs' ! 0 ! 0 ! 2 = Some 0"
proof -
  let ?xs = "[[[Some 4, Some 1, Some 0], [Some 0, Some 0, Some 1]]] :: real option list list list"
  from ex_embed_step obtain psi where
    e: "embed_step exact_ops ex_embedder (fst ex_batch) (fst (snd ex_batch)) =
          Inr (psi, [[[Some 4, Some (1 / 2), Some 0], [Some 0, Some 0, Some 1]]])"
    by blast
  let ?xs' = "[[[Some 4, Some (1 / 2), Some 0], [Some 0, Some 0, Some 1]]] :: real option list list list"
  have f: "forward exact_ops ex_embedder mode_only Supervised ([[Some 3]], ?xs, [[Some (1 / 2), Some 1]], [2])
       = Inr (Supervised, ([[Some 3]], ?xs', [[Some (1 / 2), Some 1]], [2]))"
    using e by (simp add: forward_def ex_batch_def mode_only_def)
  have i: "0 < length ?xs" "0 < length (?xs ! 0)" by simp_all
  have j: "(1::nat) < length (?xs ! 0 ! 0)" "(0::nat) < length (?xs ! 0 ! 0)" "(2::nat) < length (?xs ! 0 ! 0)"
    by simp_all
  note t1 = forward_overwrites_count_columns [OF f i j(1)]
  note t0 = forward_overwrites_count_columns [OF f i j(2)]
  note t2 = forward_overwrites_count_columns [OF f i j(3)]
  have "?xs' ! 0 ! 0 ! 1 = count_embed exact_ops ex_embedder (Some 1)"
    using t1 by simp
  moreover have "?xs' ! 0 ! 0 ! 0 = Some 4" "?xs' ! 0 ! 0 ! 2 = Some 0"
    using t0 t2 by simp_all
  ultimately show ?thesis
    using f by (auto simp: ex_batch_def)
qed

text \<open>
  In each of the three modes the time-series tensor of the batch differs after the call:
  the count 1 of the first bin has become its embedding 1/2.
\<close>

theorem forward_mutates_input_counterexample:
  "forward exact_ops ex_embedder mode_only Supervised ex_batch
     = Inr (Supervised, ([[Some 3]], [[[Some 4, Some (1 / 2), Some 0], [Some 0, Some 0, Some 1]]],
                         [[Some (1 / 2), Some 1]], [2]))
   \<and> forward exact_ops ex_embedder mode_only Pretrain ex_batch
     = Inr (Pretrain, ([[Some 3]], [[[Some 4, Some (1 / 2), Some 0], [Some 0, Some 0, Some 1]]],
                         [[Some (1 / 2), Some 1]], [2]))
   \<and> forward exact_ops ex_embedder mode_only Representation ex_batch
     = Inr (Representation, ([[Some 3]], [[[Some 4, Some (1 / 2), Some 0], [Some 0, Some 0, Some 1]]],
                         [[Some (1 / 2), Some 1]], [2]))
   \<and> ([[Some 3]], [[[Some 4, Some (1 / 2), Some 0], [Some 0, Some 0, Some 1]]],
        [[Some (1 / 2), Some 1]], [2]) \<noteq> ex_batch"
proof -
  from ex_embed_step obtain psi where
    e: "embed_step exact_ops ex_embedder (fst ex_batch) (fst (snd ex_batch)) =
          Inr (psi, [[[Some 4, Some (1 / 2), Some 0], [Some 0, Some 0, Some 1]]])"
    by blast
  then show ?thesis
    by (simp add: forward_def ex_batch_def mode_only_def)
qed

end
